theory Spec2Isabelle
  imports Complex_Main "HOL-Library.Word" "HOL-Library.Monad_Syntax"
begin

section \<open>Numbers and exceptions\<close>

text \<open>
  JavaScript numbers are modelled as \<^typ>\<open>real\<close>: a finite double is read as the number
  it denotes and arithmetic is exact. Rounding, \<open>NaN\<close> and the infinities are outside
  the model; where the source divides, the theorems ask for a non-zero divisor.

  A JavaScript call that throws is the value \<open>None\<close>; a call that returns normally is
  \<open>Some\<close> of what it returns (the updated object, for a method that returns nothing).
  What a throwing call had assigned before it threw is not kept. In the states the page
  reaches the only call that throws is \<open>init\<close> at \<open>new AudioContext\<close>, its first
  statement, in a browser that offers no audio context (lemma \<open>step_total\<close>).
\<close>

section \<open>The Web Audio objects the engine drives\<close>

datatype waveform = Sine | Square | Sawtooth | Triangle

datatype biquad_type =
  Lowpass | Highpass | Bandpass | Lowshelf | Highshelf | Peaking | Notch | Allpass

text \<open>
  An \<open>AudioParam\<close>: the value last assigned to \<open>.value\<close>, and the linear ramps
  scheduled on it, each with its target value and its end time, in call order.
\<close>

datatype audio_param = AudioParam (pvalue: real) (ramps: "(real \<times> real) list")

definition setValue :: "real \<Rightarrow> audio_param \<Rightarrow> audio_param" where
  "setValue v p = AudioParam v (ramps p)"

definition linearRampToValueAtTime :: "real \<Rightarrow> real \<Rightarrow> audio_param \<Rightarrow> audio_param" where
  "linearRampToValueAtTime v t p = AudioParam (pvalue p) (ramps p @ [(v, t)])"

text \<open>The value a parameter is heading to: the last ramp's target, or its value.\<close>

definition paramTarget :: "audio_param \<Rightarrow> real" where
  "paramTarget p = (if ramps p = [] then pvalue p else fst (last (ramps p)))"

datatype audio_buffer = AudioBuffer (channelData: "real list list") (bufferSampleRate: nat)

text \<open>
  The nodes, with the attributes the engine reads or writes. An oscillator carries its
  type, its frequency, and whether \<open>start()\<close> and \<open>stop()\<close> have been called.
\<close>

datatype audio_node =
    OscillatorNode waveform audio_param bool bool
  | GainNode audio_param
  | BiquadFilterNode biquad_type audio_param audio_param
  | DelayNode audio_param
  | ConvolverNode "audio_buffer option"
  | AnalyserNode nat
  | AudioDestinationNode

text \<open>
  An \<open>AudioContext\<close> owns its nodes. A node is named by its index in \<open>nodes\<close>, in
  creation order; node 0 is \<open>destination\<close>. \<open>connections\<close> holds the pairs
  (source, target) made by \<open>connect\<close>.
\<close>

record audio_context =
  currentTime :: real
  sampleRate :: nat
  nodes :: "audio_node list"
  connections :: "(nat \<times> nat) list"

definition destination :: nat where
  "destination = 0"

definition createNode :: "audio_node \<Rightarrow> audio_context \<Rightarrow> nat \<times> audio_context" where
  "createNode n c = (length (nodes c), c\<lparr>nodes := nodes c @ [n]\<rparr>)"

text \<open>The factory methods create each node with the defaults of the Web Audio API.\<close>

definition createOscillator :: "audio_context \<Rightarrow> nat \<times> audio_context" where
  "createOscillator = createNode (OscillatorNode Sine (AudioParam 440 []) False False)"

definition createGain :: "audio_context \<Rightarrow> nat \<times> audio_context" where
  "createGain = createNode (GainNode (AudioParam 1 []))"

definition createBiquadFilter :: "audio_context \<Rightarrow> nat \<times> audio_context" where
  "createBiquadFilter = createNode (BiquadFilterNode Lowpass (AudioParam 350 []) (AudioParam 1 []))"

definition createDelay :: "audio_context \<Rightarrow> nat \<times> audio_context" where
  "createDelay = createNode (DelayNode (AudioParam 0 []))"

definition createConvolver :: "audio_context \<Rightarrow> nat \<times> audio_context" where
  "createConvolver = createNode (ConvolverNode None)"

definition createAnalyser :: "audio_context \<Rightarrow> nat \<times> audio_context" where
  "createAnalyser = createNode (AnalyserNode 2048)"

text \<open>
  Reading or writing an attribute of a node: \<open>None\<close> (a \<open>TypeError\<close>) when the
  node does not exist or has no such attribute.
\<close>

definition updNode ::
  "nat \<Rightarrow> (audio_node \<Rightarrow> audio_node option) \<Rightarrow> audio_context \<Rightarrow> audio_context option" where
  "updNode i f c =
     (if i < length (nodes c)
      then (case f (nodes c ! i) of
              None \<Rightarrow> None
            | Some n \<Rightarrow> Some (c\<lparr>nodes := (nodes c)[i := n]\<rparr>))
      else None)"

fun oscType :: "waveform \<Rightarrow> audio_node \<Rightarrow> audio_node option" where
  "oscType w (OscillatorNode t p st sp) = Some (OscillatorNode w p st sp)"
| "oscType w _ = None"

fun oscFrequency :: "(audio_param \<Rightarrow> audio_param) \<Rightarrow> audio_node \<Rightarrow> audio_node option" where
  "oscFrequency f (OscillatorNode t p st sp) = Some (OscillatorNode t (f p) st sp)"
| "oscFrequency f _ = None"

text \<open>
  \<open>start()\<close> throws \<open>InvalidStateError\<close> on an oscillator already started, and
  \<open>stop()\<close> on one never started.
\<close>

fun oscStart :: "audio_node \<Rightarrow> audio_node option" where
  "oscStart (OscillatorNode t p st sp) = (if st then None else Some (OscillatorNode t p True sp))"
| "oscStart _ = None"

fun oscStop :: "audio_node \<Rightarrow> audio_node option" where
  "oscStop (OscillatorNode t p st sp) = (if st then Some (OscillatorNode t p st True) else None)"
| "oscStop _ = None"

fun gainGain :: "(audio_param \<Rightarrow> audio_param) \<Rightarrow> audio_node \<Rightarrow> audio_node option" where
  "gainGain f (GainNode g) = Some (GainNode (f g))"
| "gainGain f _ = None"

fun biquadType :: "biquad_type \<Rightarrow> audio_node \<Rightarrow> audio_node option" where
  "biquadType b (BiquadFilterNode t fr q) = Some (BiquadFilterNode b fr q)"
| "biquadType b _ = None"

fun biquadFrequency :: "(audio_param \<Rightarrow> audio_param) \<Rightarrow> audio_node \<Rightarrow> audio_node option" where
  "biquadFrequency f (BiquadFilterNode t fr q) = Some (BiquadFilterNode t (f fr) q)"
| "biquadFrequency f _ = None"

fun biquadQ :: "(audio_param \<Rightarrow> audio_param) \<Rightarrow> audio_node \<Rightarrow> audio_node option" where
  "biquadQ f (BiquadFilterNode t fr q) = Some (BiquadFilterNode t fr (f q))"
| "biquadQ f _ = None"

fun delayDelayTime :: "(audio_param \<Rightarrow> audio_param) \<Rightarrow> audio_node \<Rightarrow> audio_node option" where
  "delayDelayTime f (DelayNode d) = Some (DelayNode (f d))"
| "delayDelayTime f _ = None"

fun convolverBuffer :: "audio_buffer \<Rightarrow> audio_node \<Rightarrow> audio_node option" where
  "convolverBuffer b (ConvolverNode old) = Some (ConvolverNode (Some b))"
| "convolverBuffer b _ = None"

fun analyserFftSize :: "nat \<Rightarrow> audio_node \<Rightarrow> audio_node option" where
  "analyserFftSize n (AnalyserNode old) = Some (AnalyserNode n)"
| "analyserFftSize n _ = None"

fun frequencyBinCount :: "audio_node \<Rightarrow> nat option" where
  "frequencyBinCount (AnalyserNode n) = Some (n div 2)"
| "frequencyBinCount _ = None"

text \<open>
  \<open>a.connect(b)\<close> adds the connection once, however often it is called;
  \<open>a.disconnect()\<close> removes every connection that leaves \<open>a\<close>.
\<close>

definition connect :: "nat \<Rightarrow> nat \<Rightarrow> audio_context \<Rightarrow> audio_context option" where
  "connect src dst c =
     (if src < length (nodes c) \<and> dst < length (nodes c)
      then Some (c\<lparr>connections := List.insert (src, dst) (connections c)\<rparr>)
      else None)"

definition disconnect :: "nat \<Rightarrow> audio_context \<Rightarrow> audio_context option" where
  "disconnect src c =
     (if src < length (nodes c)
      then Some (c\<lparr>connections := filter (\<lambda>e. fst e \<noteq> src) (connections c)\<rparr>)
      else None)"

text \<open>
  \<open>getByteFrequencyData(array)\<close> copies the analyser's current spectrum into the
  array, as far as both reach; the array keeps its length.
\<close>

definition getByteFrequencyData :: "8 word list \<Rightarrow> 8 word list \<Rightarrow> 8 word list" where
  "getByteFrequencyData spectrum array = take (length array) spectrum @ drop (length spectrum) array"

text \<open>
  What the page's window provides: whether it has an \<open>AudioContext\<close> constructor, the
  sample rate of the audio hardware, the successive results of \<open>Math.random()\<close>, and
  the counts of the contexts constructed and of the random numbers drawn so far.
\<close>

record browser =
  audioContextAvailable :: bool
  hardwareSampleRate :: nat
  contextsCreated :: nat
  randomSource :: "nat \<Rightarrow> real"
  randomCalls :: nat

definition newAudioContext :: "browser \<Rightarrow> (browser \<times> audio_context) option" where
  "newAudioContext b =
     (if audioContextAvailable b
      then Some (b\<lparr>contextsCreated := contextsCreated b + 1\<rparr>,
                 \<lparr>currentTime = 0, sampleRate = hardwareSampleRate b,
                  nodes = [AudioDestinationNode], connections = []\<rparr>)
      else None)"

section \<open>The synthesis engine (audio.js)\<close>

text \<open>
  The fields of \<open>AudioSynthesizer\<close>. The constructor sets the first nine; the
  others are \<open>undefined\<close> (\<open>None\<close>) until \<open>init()\<close> assigns them: the context, and
  the nodes by their indices in it.
\<close>

record audio_synthesizer =
  isPlaying :: bool
  initialized :: bool
  baseFrequency :: real
  currentFrequency :: real
  filterFrequency :: real
  filterQ :: real
  reverbMix :: real
  delayTime :: real
  waveform :: waveform
  audioContext :: "audio_context option"
  oscillator :: "nat option"
  gainNode :: "nat option"
  filterNode :: "nat option"
  delayNode :: "nat option"
  delayFeedback :: "nat option"
  delayMix :: "nat option"
  reverb :: "nat option"
  reverbMixNode :: "nat option"
  dryGain :: "nat option"
  analyser :: "nat option"
  analyserData :: "8 word list option"
  masterGain :: "nat option"

definition newAudioSynthesizer :: audio_synthesizer where
  "newAudioSynthesizer =
     \<lparr>isPlaying = False, initialized = False,
      baseFrequency = 440, currentFrequency = 440, filterFrequency = 1000, filterQ = 5,
      reverbMix = 0.3, delayTime = 0.2, waveform = Sine,
      audioContext = None, oscillator = None, gainNode = None, filterNode = None,
      delayNode = None, delayFeedback = None, delayMix = None, reverb = None,
      reverbMixNode = None, dryGain = None, analyser = None, analyserData = None,
      masterGain = None\<rparr>"

text \<open>
  \<open>this.audioContext.createX()\<close> and a call on a node of \<open>this.audioContext\<close>: both
  throw when the context is still \<open>undefined\<close>.
\<close>

definition create ::
  "(audio_context \<Rightarrow> nat \<times> audio_context) \<Rightarrow> audio_synthesizer \<Rightarrow> (nat \<times> audio_synthesizer) option" where
  "create mk s =
     (case audioContext s of
        None \<Rightarrow> None
      | Some c \<Rightarrow> (case mk c of (i, c') \<Rightarrow> Some (i, s\<lparr>audioContext := Some c'\<rparr>)))"

definition onContext ::
  "(audio_context \<Rightarrow> audio_context option) \<Rightarrow> audio_synthesizer \<Rightarrow> audio_synthesizer option" where
  "onContext f s =
     (case audioContext s of
        None \<Rightarrow> None
      | Some c \<Rightarrow> (case f c of None \<Rightarrow> None | Some c' \<Rightarrow> Some (s\<lparr>audioContext := Some c'\<rparr>)))"

text \<open>
  \<open>generateReverbImpulse\<close>: two channels of two seconds of noise under a squared
  linear decay. \<open>createBuffer\<close> throws for a buffer of no samples.
\<close>

definition generateReverbImpulse ::
  "browser \<Rightarrow> audio_synthesizer \<Rightarrow> (browser \<times> audio_buffer) option" where
  "generateReverbImpulse b s =
     (case audioContext s of
        None \<Rightarrow> None
      | Some c \<Rightarrow>
          (let rate = sampleRate c;
               len = rate * 2
           in if len = 0 then None
              else Some (b\<lparr>randomCalls := randomCalls b + 2 * len\<rparr>,
                         AudioBuffer
                           (map (\<lambda>channel.
                                  map (\<lambda>i. (randomSource b (randomCalls b + channel * len + i) * 2 - 1)
                                            * (1 - real i / real len) ^ 2)
                                      [0..<len])
                                [0..<2])
                           rate)))"

definition init :: "browser \<Rightarrow> audio_synthesizer \<Rightarrow> (browser \<times> audio_synthesizer) option" where
  "init b s =
     (if initialized s then Some (b, s)
      else do {
        \<comment> \<open>Create audio context\<close>
        (b, c) \<leftarrow> newAudioContext b;
        let s = s\<lparr>audioContext := Some c\<rparr>;
        \<comment> \<open>Main oscillator\<close>
        (osc, s) \<leftarrow> create createOscillator s;
        let s = s\<lparr>oscillator := Some osc\<rparr>;
        s \<leftarrow> onContext (updNode osc (oscType (waveform s))) s;
        s \<leftarrow> onContext (updNode osc (oscFrequency (setValue (currentFrequency s)))) s;
        \<comment> \<open>Gain node for volume control\<close>
        (g, s) \<leftarrow> create createGain s;
        let s = s\<lparr>gainNode := Some g\<rparr>;
        s \<leftarrow> onContext (updNode g (gainGain (setValue 0))) s;
        \<comment> \<open>Filter\<close>
        (f, s) \<leftarrow> create createBiquadFilter s;
        let s = s\<lparr>filterNode := Some f\<rparr>;
        s \<leftarrow> onContext (updNode f (biquadType Lowpass)) s;
        s \<leftarrow> onContext (updNode f (biquadFrequency (setValue (filterFrequency s)))) s;
        s \<leftarrow> onContext (updNode f (biquadQ (setValue (filterQ s)))) s;
        \<comment> \<open>Delay effect\<close>
        (d, s) \<leftarrow> create createDelay s;
        let s = s\<lparr>delayNode := Some d\<rparr>;
        s \<leftarrow> onContext (updNode d (delayDelayTime (setValue (delayTime s)))) s;
        (df, s) \<leftarrow> create createGain s;
        let s = s\<lparr>delayFeedback := Some df\<rparr>;
        s \<leftarrow> onContext (updNode df (gainGain (setValue 0.4))) s;
        (dm, s) \<leftarrow> create createGain s;
        let s = s\<lparr>delayMix := Some dm\<rparr>;
        s \<leftarrow> onContext (updNode dm (gainGain (setValue 0.3))) s;
        \<comment> \<open>Reverb (using convolver with generated impulse response)\<close>
        (rv, s) \<leftarrow> create createConvolver s;
        let s = s\<lparr>reverb := Some rv\<rparr>;
        (b, impulse) \<leftarrow> generateReverbImpulse b s;
        s \<leftarrow> onContext (updNode rv (convolverBuffer impulse)) s;
        (rm, s) \<leftarrow> create createGain s;
        let s = s\<lparr>reverbMixNode := Some rm\<rparr>;
        s \<leftarrow> onContext (updNode rm (gainGain (setValue (reverbMix s)))) s;
        (dg, s) \<leftarrow> create createGain s;
        let s = s\<lparr>dryGain := Some dg\<rparr>;
        s \<leftarrow> onContext (updNode dg (gainGain (setValue (1 - reverbMix s)))) s;
        \<comment> \<open>Analyser for visual feedback\<close>
        (an, s) \<leftarrow> create createAnalyser s;
        let s = s\<lparr>analyser := Some an\<rparr>;
        s \<leftarrow> onContext (updNode an (analyserFftSize 256)) s;
        c \<leftarrow> audioContext s;
        bins \<leftarrow> (if an < length (nodes c) then frequencyBinCount (nodes c ! an) else None);
        let s = s\<lparr>analyserData := Some (replicate bins 0)\<rparr>;
        \<comment> \<open>Master output\<close>
        (mg, s) \<leftarrow> create createGain s;
        let s = s\<lparr>masterGain := Some mg\<rparr>;
        s \<leftarrow> onContext (updNode mg (gainGain (setValue 0.3))) s;
        \<comment> \<open>Connect nodes: Oscillator -> Gain -> Filter\<close>
        s \<leftarrow> onContext (connect osc g) s;
        s \<leftarrow> onContext (connect g f) s;
        \<comment> \<open>Delay chain, with its feedback loop\<close>
        s \<leftarrow> onContext (connect f d) s;
        s \<leftarrow> onContext (connect d df) s;
        s \<leftarrow> onContext (connect df d) s;
        s \<leftarrow> onContext (connect d dm) s;
        \<comment> \<open>Dry/Wet mix for delay\<close>
        s \<leftarrow> onContext (connect f dg) s;
        s \<leftarrow> onContext (connect dm dg) s;
        \<comment> \<open>Reverb chain\<close>
        s \<leftarrow> onContext (connect dg rv) s;
        s \<leftarrow> onContext (connect rv rm) s;
        \<comment> \<open>Mix dry and reverb\<close>
        (finalMix, s) \<leftarrow> create createGain s;
        s \<leftarrow> onContext (connect dg finalMix) s;
        s \<leftarrow> onContext (connect rm finalMix) s;
        \<comment> \<open>Final output\<close>
        s \<leftarrow> onContext (connect finalMix an) s;
        s \<leftarrow> onContext (connect an mg) s;
        s \<leftarrow> onContext (connect mg destination) s;
        \<comment> \<open>Start oscillator\<close>
        s \<leftarrow> onContext (updNode osc oscStart) s;
        Some (b, s\<lparr>initialized := True\<rparr>)
      })"

text \<open>
  \<open>start\<close> and \<open>stop\<close> ramp the gain of \<open>gainNode\<close> to 0.5 and to 0 within 100 ms.
\<close>

definition start :: "audio_synthesizer \<Rightarrow> audio_synthesizer option" where
  "start s =
     (if \<not> initialized s then Some s
      else do {
        let s = s\<lparr>isPlaying := True\<rparr>;
        g \<leftarrow> gainNode s;
        c \<leftarrow> audioContext s;
        onContext (updNode g (gainGain (linearRampToValueAtTime 0.5 (currentTime c + 0.1)))) s
      })"

definition stop :: "audio_synthesizer \<Rightarrow> audio_synthesizer option" where
  "stop s =
     (if \<not> initialized s then Some s
      else do {
        let s = s\<lparr>isPlaying := False\<rparr>;
        g \<leftarrow> gainNode s;
        c \<leftarrow> audioContext s;
        onContext (updNode g (gainGain (linearRampToValueAtTime 0 (currentTime c + 0.1)))) s
      })"

text \<open>
  The five setters: each stores the clamped value and ramps the node's parameter to it
  within 50 ms.
\<close>

definition setFrequency :: "real \<Rightarrow> audio_synthesizer \<Rightarrow> audio_synthesizer option" where
  "setFrequency freq s =
     (if \<not> initialized s then Some s
      else do {
        let s = s\<lparr>currentFrequency := max 50 (min 2000 freq)\<rparr>;
        osc \<leftarrow> oscillator s;
        c \<leftarrow> audioContext s;
        onContext (updNode osc (oscFrequency
          (linearRampToValueAtTime (currentFrequency s) (currentTime c + 0.05)))) s
      })"

definition setFilterFrequency :: "real \<Rightarrow> audio_synthesizer \<Rightarrow> audio_synthesizer option" where
  "setFilterFrequency freq s =
     (if \<not> initialized s then Some s
      else do {
        let s = s\<lparr>filterFrequency := max 200 (min 5000 freq)\<rparr>;
        f \<leftarrow> filterNode s;
        c \<leftarrow> audioContext s;
        onContext (updNode f (biquadFrequency
          (linearRampToValueAtTime (filterFrequency s) (currentTime c + 0.05)))) s
      })"

definition setFilterQ :: "real \<Rightarrow> audio_synthesizer \<Rightarrow> audio_synthesizer option" where
  "setFilterQ q s =
     (if \<not> initialized s then Some s
      else do {
        let s = s\<lparr>filterQ := max 1 (min 20 q)\<rparr>;
        f \<leftarrow> filterNode s;
        c \<leftarrow> audioContext s;
        onContext (updNode f (biquadQ
          (linearRampToValueAtTime (filterQ s) (currentTime c + 0.05)))) s
      })"

definition setReverbMix :: "real \<Rightarrow> audio_synthesizer \<Rightarrow> audio_synthesizer option" where
  "setReverbMix mix s =
     (if \<not> initialized s then Some s
      else do {
        let s = s\<lparr>reverbMix := max 0 (min 1 mix)\<rparr>;
        rm \<leftarrow> reverbMixNode s;
        c \<leftarrow> audioContext s;
        onContext (updNode rm (gainGain
          (linearRampToValueAtTime (reverbMix s) (currentTime c + 0.05)))) s
      })"

definition setDelayTime :: "real \<Rightarrow> audio_synthesizer \<Rightarrow> audio_synthesizer option" where
  "setDelayTime time s =
     (if \<not> initialized s then Some s
      else do {
        let s = s\<lparr>delayTime := max 0 (min 0.5 time)\<rparr>;
        d \<leftarrow> delayNode s;
        c \<leftarrow> audioContext s;
        onContext (updNode d (delayDelayTime
          (linearRampToValueAtTime (delayTime s) (currentTime c + 0.05)))) s
      })"

text \<open>
  \<open>setWaveform\<close> stores the type, then replaces the oscillator: the old one is
  disconnected and stopped, a new one is created, typed, tuned to the stored frequency,
  connected to \<open>gainNode\<close> and started.
\<close>

definition setWaveform :: "waveform \<Rightarrow> audio_synthesizer \<Rightarrow> audio_synthesizer option" where
  "setWaveform kind s =
     (let s = s\<lparr>waveform := kind\<rparr>
      in if \<not> initialized s then Some s
         else do {
           old \<leftarrow> oscillator s;
           s \<leftarrow> onContext (disconnect old) s;
           s \<leftarrow> onContext (updNode old oscStop) s;
           (osc, s) \<leftarrow> create createOscillator s;
           let s = s\<lparr>oscillator := Some osc\<rparr>;
           s \<leftarrow> onContext (updNode osc (oscType kind)) s;
           s \<leftarrow> onContext (updNode osc (oscFrequency (setValue (currentFrequency s)))) s;
           g \<leftarrow> gainNode s;
           s \<leftarrow> onContext (connect osc g) s;
           onContext (updNode osc oscStart) s
         })"

text \<open>
  \<open>getAudioLevel\<close>, given the spectrum the analyser reports at the call: the mean of
  the bytes read into \<open>analyserData\<close>, over 255. It returns the level and the engine,
  whose \<open>analyserData\<close> it has overwritten.
\<close>

definition getAudioLevel ::
  "8 word list \<Rightarrow> audio_synthesizer \<Rightarrow> (real \<times> audio_synthesizer) option" where
  "getAudioLevel spectrum s =
     (if \<not> initialized s \<or> analyser s = None then Some (0, s)
      else do {
        an \<leftarrow> analyser s;
        c \<leftarrow> audioContext s;
        bins \<leftarrow> (if an < length (nodes c) then frequencyBinCount (nodes c ! an) else None);
        array \<leftarrow> analyserData s;
        let array = getByteFrequencyData (take bins spectrum) array;
        let s = s\<lparr>analyserData := Some array\<rparr>;
        \<comment> \<open>Calculate average\<close>
        let sum = foldl (\<lambda>sum x. sum + real (unat x)) 0 array;
        Some ((sum / real (length array)) / 255, s)
      })"

text \<open>
  \<open>setFrequencyNormalized\<close> maps 0..1 to 110 Hz..1760 Hz exponentially.
  \<open>Math.pow\<close> with the positive base 16 is \<open>powr\<close>.
\<close>

definition setFrequencyNormalized :: "real \<Rightarrow> audio_synthesizer \<Rightarrow> audio_synthesizer option" where
  "setFrequencyNormalized v s =
     (let minFreq = 110;
          maxFreq = 1760;
          freq = minFreq * (maxFreq / minFreq) powr v
      in setFrequency freq s)"

section \<open>The scene's interface (scene.js)\<close>

text \<open>
  Of \<open>Scene3D\<close>, the fields its setters write and the mesh's kind and position;
  the renderer, the camera, the lights, the particles and the per-frame \<open>update\<close> are
  not modelled. A new mesh stands at the origin.
\<close>

datatype geometry = Icosahedron | Torus | Octahedron | Dodecahedron

record mesh3d =
  meshGeometry :: geometry
  positionX :: real
  positionY :: real

record scene3d =
  audioLevel :: real
  targetRotationX :: real
  targetRotationY :: real
  currentScale :: real
  mesh :: "mesh3d option"

definition createGeometry :: "string \<Rightarrow> scene3d \<Rightarrow> scene3d" where
  "createGeometry kind sc =
     (let g = (if kind = ''icosahedron'' then Icosahedron
               else if kind = ''torus'' then Torus
               else if kind = ''octahedron'' then Octahedron
               else if kind = ''dodecahedron'' then Dodecahedron
               else Icosahedron)
      in sc\<lparr>mesh := Some \<lparr>meshGeometry = g, positionX = 0, positionY = 0\<rparr>\<rparr>)"

definition newScene3D :: scene3d where
  "newScene3D =
     createGeometry ''icosahedron''
       \<lparr>audioLevel = 0, targetRotationX = 0, targetRotationY = 0, currentScale = 1, mesh = None\<rparr>"

definition setAudioLevel :: "real \<Rightarrow> scene3d \<Rightarrow> scene3d" where
  "setAudioLevel level sc = sc\<lparr>audioLevel := level\<rparr>"

definition setRotation :: "real \<Rightarrow> real \<Rightarrow> scene3d \<Rightarrow> scene3d" where
  "setRotation x y sc = sc\<lparr>targetRotationX := x, targetRotationY := y\<rparr>"

definition setScale :: "real \<Rightarrow> scene3d \<Rightarrow> scene3d" where
  "setScale scale sc = sc\<lparr>currentScale := max 0.5 (min 3 scale)\<rparr>"

definition setPosition :: "real \<Rightarrow> real \<Rightarrow> scene3d \<Rightarrow> scene3d" where
  "setPosition x y sc =
     (case mesh sc of
        None \<Rightarrow> sc
      | Some m \<Rightarrow> sc\<lparr>mesh := Some (m\<lparr>positionX := x, positionY := y\<rparr>)\<rparr>)"

section \<open>The interaction controller (interaction.js)\<close>

text \<open>
  The rectangle \<open>canvas.getBoundingClientRect()\<close> returns at an event.
\<close>

record rect =
  rectLeft :: real
  rectTop :: real
  rectWidth :: real
  rectHeight :: real

text \<open>
  The fields of \<open>InteractionController\<close>, with the scene and the engine it holds,
  and the two things of the page its handlers reach: the window, and the text of the
  element \<open>status\<close>. The labels \<open>updateUI\<close> rewrites from the engine's fields and
  the buttons' \<open>active\<close> class are presentation and are not modelled.
\<close>

record interaction_controller =
  window :: browser
  statusText :: string
  scene :: scene3d
  audio :: audio_synthesizer
  mouseX :: real
  mouseY :: real
  isDragging :: bool
  dragStartX :: real
  dragStartY :: real
  shapeOffsetX :: real
  shapeOffsetY :: real

definition newInteractionController :: "browser \<Rightarrow> string \<Rightarrow> interaction_controller" where
  "newInteractionController b st =
     \<lparr>window = b, statusText = st, scene = newScene3D, audio = newAudioSynthesizer,
      mouseX = 0, mouseY = 0, isDragging = False, dragStartX = 0, dragStartY = 0,
      shapeOffsetX = 0, shapeOffsetY = 0\<rparr>"

definition onMouseMove :: "real \<Rightarrow> real \<Rightarrow> rect \<Rightarrow> interaction_controller \<Rightarrow> interaction_controller option" where
  "onMouseMove clientX clientY r a = do {
     let a = a\<lparr>mouseX := (clientX - rectLeft r) / rectWidth r\<rparr>;
     let a = a\<lparr>mouseY := (clientY - rectTop r) / rectHeight r\<rparr>;
     \<comment> \<open>Update rotation based on mouse position\<close>
     let rotationX = (mouseY a - 0.5) * pi * 2;
     let rotationY = (mouseX a - 0.5) * pi * 2;
     let a = a\<lparr>scene := setRotation rotationX rotationY (scene a)\<rparr>;
     \<comment> \<open>Update filter based on mouse position\<close>
     let filterFreq = 200 + mouseX a * 4800;
     let q = 1 + mouseY a * 19;
     au \<leftarrow> setFilterFrequency filterFreq (audio a);
     let a = a\<lparr>audio := au\<rparr>;
     au \<leftarrow> setFilterQ q (audio a);
     let a = a\<lparr>audio := au\<rparr>;
     \<comment> \<open>Handle dragging\<close>
     if isDragging a then do {
       let dragX = (clientX - dragStartX a) / rectWidth r;
       let dragY = (clientY - dragStartY a) / rectHeight r;
       let a = a\<lparr>shapeOffsetX := dragX * 4\<rparr>;
       let a = a\<lparr>shapeOffsetY := - dragY * 4\<rparr>;
       let a = a\<lparr>scene := setPosition (shapeOffsetX a) (shapeOffsetY a) (scene a)\<rparr>;
       \<comment> \<open>Map drag to effects\<close>
       let dt = \<bar>dragX\<bar> * 0.5;
       let mix = \<bar>dragY\<bar>;
       au \<leftarrow> setDelayTime dt (audio a);
       let a = a\<lparr>audio := au\<rparr>;
       au \<leftarrow> setReverbMix mix (audio a);
       Some (a\<lparr>audio := au\<rparr>)
     } else Some a
   }"

definition onWheel :: "real \<Rightarrow> interaction_controller \<Rightarrow> interaction_controller option" where
  "onWheel deltaY a = do {
     \<comment> \<open>Get current scale\<close>
     let scale = currentScale (scene a);
     \<comment> \<open>Update scale based on wheel delta\<close>
     let delta = (if deltaY > 0 then - 0.1 else 0.1);
     let scale = scale + delta;
     let scale = max 0.5 (min 3 scale);
     let a = a\<lparr>scene := setScale scale (scene a)\<rparr>;
     \<comment> \<open>Map scale to frequency (exponential)\<close>
     let normalizedScale = (scale - 0.5) / 2.5;
     au \<leftarrow> setFrequencyNormalized normalizedScale (audio a);
     Some (a\<lparr>audio := au\<rparr>)
   }"

text \<open>
  \<open>onClick\<close> is an \<open>async\<close> function with one \<open>await\<close>. It runs in two
  segments, each without interruption: \<open>onClickBegin\<close> up to the \<open>await\<close> (or to the
  end, when the engine is initialized and the \<open>await\<close> is not reached), and
  \<open>onClickResume\<close> from there. \<open>init\<close> itself has no \<open>await\<close> in its body: called
  from \<open>onClickBegin\<close>, it runs to its end before the \<open>await\<close> suspends the handler.
  \<open>onClickBegin\<close> also tells whether it stopped at the \<open>await\<close>.
\<close>

definition toggleSound :: "interaction_controller \<Rightarrow> interaction_controller option" where
  "toggleSound a =
     (if isPlaying (audio a)
      then do { au \<leftarrow> stop (audio a); Some (a\<lparr>audio := au, statusText := ''Paused''\<rparr>) }
      else do { au \<leftarrow> start (audio a); Some (a\<lparr>audio := au, statusText := ''Playing''\<rparr>) })"

definition onClickBegin :: "interaction_controller \<Rightarrow> (bool \<times> interaction_controller) option" where
  "onClickBegin a =
     (if \<not> initialized (audio a)
      then do {
        (b, au) \<leftarrow> init (window a) (audio a);
        Some (True, a\<lparr>window := b, audio := au\<rparr>)
      }
      else do { a \<leftarrow> toggleSound a; Some (False, a) })"

definition onClickResume :: "interaction_controller \<Rightarrow> interaction_controller option" where
  "onClickResume a = toggleSound (a\<lparr>statusText := ''Playing''\<rparr>)"

text \<open>A click handled with nothing else in between: both segments in a row.\<close>

definition onClick :: "interaction_controller \<Rightarrow> interaction_controller option" where
  "onClick a = do {
     (awaiting, a) \<leftarrow> onClickBegin a;
     if awaiting then onClickResume a else Some a
   }"

definition onMouseDown :: "real \<Rightarrow> real \<Rightarrow> interaction_controller \<Rightarrow> interaction_controller option" where
  "onMouseDown clientX clientY a =
     Some (a\<lparr>isDragging := True, dragStartX := clientX, dragStartY := clientY\<rparr>)"

definition onMouseUp :: "interaction_controller \<Rightarrow> interaction_controller option" where
  "onMouseUp a = do {
     let a = a\<lparr>isDragging := False\<rparr>;
     \<comment> \<open>Smoothly return shape to center\<close>
     let a = a\<lparr>scene := setPosition 0 0 (scene a)\<rparr>;
     let a = a\<lparr>shapeOffsetX := 0, shapeOffsetY := 0\<rparr>;
     \<comment> \<open>Reset effects to defaults\<close>
     au \<leftarrow> setDelayTime 0.2 (audio a);
     let a = a\<lparr>audio := au\<rparr>;
     au \<leftarrow> setReverbMix 0.3 (audio a);
     Some (a\<lparr>audio := au\<rparr>)
   }"

text \<open>A touch event carries the list of its touch points, each with its coordinates.\<close>

definition onTouchStart :: "(real \<times> real) list \<Rightarrow> interaction_controller \<Rightarrow> interaction_controller option" where
  "onTouchStart touches a =
     (case touches of
        [] \<Rightarrow> Some a
      | touch # rest \<Rightarrow> onMouseDown (fst touch) (snd touch) a)"

definition onTouchMove :: "(real \<times> real) list \<Rightarrow> rect \<Rightarrow> interaction_controller \<Rightarrow> interaction_controller option" where
  "onTouchMove touches r a =
     (case touches of
        [] \<Rightarrow> Some a
      | touch # rest \<Rightarrow> onMouseMove (fst touch) (snd touch) r a)"

definition onTouchEnd :: "interaction_controller \<Rightarrow> interaction_controller option" where
  "onTouchEnd a = onMouseUp a"

definition changeShape :: "string \<Rightarrow> interaction_controller \<Rightarrow> interaction_controller option" where
  "changeShape shape a = Some (a\<lparr>scene := createGeometry shape (scene a)\<rparr>)"

definition changeWaveform :: "waveform \<Rightarrow> interaction_controller \<Rightarrow> interaction_controller option" where
  "changeWaveform wave a = do { au \<leftarrow> setWaveform wave (audio a); Some (a\<lparr>audio := au\<rparr>) }"

definition onKeyDown :: "string \<Rightarrow> interaction_controller \<Rightarrow> interaction_controller option" where
  "onKeyDown key a = do {
     \<comment> \<open>Shape shortcuts\<close>
     a \<leftarrow> (if key = ''1'' then changeShape ''icosahedron'' a
          else if key = ''2'' then changeShape ''torus'' a
          else if key = ''3'' then changeShape ''octahedron'' a
          else if key = ''4'' then changeShape ''dodecahedron'' a
          else Some a);
     \<comment> \<open>Waveform shortcuts\<close>
     a \<leftarrow> (if key = ''q'' then changeWaveform Sine a
          else if key = ''w'' then changeWaveform Square a
          else if key = ''e'' then changeWaveform Sawtooth a
          else if key = ''r'' then changeWaveform Triangle a
          else Some a);
     \<comment> \<open>Space to toggle\<close>
     if key = '' '' then onClick a else Some a
   }"

section \<open>Events, operations and the states the page can reach\<close>

text \<open>
  The input events the controller listens to, with the two kinds of button
  \<open>main.js\<close> wires to \<open>changeShape\<close> and \<open>changeWaveform\<close>, and the animation
  frame, which reads the level and hands it to the scene.
\<close>

datatype event =
    MouseMove real real rect
  | Wheel real
  | Click
  | MouseDown real real
  | MouseUp
  | TouchStart "(real \<times> real) list"
  | TouchMove "(real \<times> real) list" rect
  | TouchEnd
  | KeyDown string
  | ShapeButton string
  | WaveButton waveform
  | Frame "8 word list"

definition animate :: "8 word list \<Rightarrow> interaction_controller \<Rightarrow> interaction_controller option" where
  "animate spectrum a = do {
     (level, au) \<leftarrow> getAudioLevel spectrum (audio a);
     Some (a\<lparr>audio := au, scene := setAudioLevel level (scene a)\<rparr>)
   }"

fun handle :: "event \<Rightarrow> interaction_controller \<Rightarrow> interaction_controller option" where
  "handle (MouseMove x y r) a = onMouseMove x y r a"
| "handle (Wheel deltaY) a = onWheel deltaY a"
| "handle Click a = onClick a"
| "handle (MouseDown x y) a = onMouseDown x y a"
| "handle MouseUp a = onMouseUp a"
| "handle (TouchStart ts) a = onTouchStart ts a"
| "handle (TouchMove ts r) a = onTouchMove ts r a"
| "handle TouchEnd a = onTouchEnd a"
| "handle (KeyDown k) a = onKeyDown k a"
| "handle (ShapeButton shape) a = changeShape shape a"
| "handle (WaveButton wave) a = changeWaveform wave a"
| "handle (Frame spectrum) a = animate spectrum a"

text \<open>The methods of the engine and of the scene, called directly.\<close>

datatype operation =
    Init
  | Start
  | Stop
  | SetFrequency real
  | SetFilterFrequency real
  | SetFilterQ real
  | SetReverbMix real
  | SetDelayTime real
  | SetWaveform waveform
  | GetAudioLevel "8 word list"
  | SetFrequencyNormalized real
  | SetAudioLevel real
  | SetRotation real real
  | SetScale real
  | SetPosition real real
  | CreateGeometry string

definition onAudio ::
  "(audio_synthesizer \<Rightarrow> audio_synthesizer option) \<Rightarrow> interaction_controller \<Rightarrow> interaction_controller option" where
  "onAudio m a = (case m (audio a) of None \<Rightarrow> None | Some au \<Rightarrow> Some (a\<lparr>audio := au\<rparr>))"

fun perform :: "operation \<Rightarrow> interaction_controller \<Rightarrow> interaction_controller option" where
  "perform Init a =
     (case init (window a) (audio a) of
        None \<Rightarrow> None
      | Some (b, au) \<Rightarrow> Some (a\<lparr>window := b, audio := au\<rparr>))"
| "perform Start a = onAudio start a"
| "perform Stop a = onAudio stop a"
| "perform (SetFrequency v) a = onAudio (setFrequency v) a"
| "perform (SetFilterFrequency v) a = onAudio (setFilterFrequency v) a"
| "perform (SetFilterQ v) a = onAudio (setFilterQ v) a"
| "perform (SetReverbMix v) a = onAudio (setReverbMix v) a"
| "perform (SetDelayTime v) a = onAudio (setDelayTime v) a"
| "perform (SetWaveform w) a = onAudio (setWaveform w) a"
| "perform (GetAudioLevel spectrum) a =
     onAudio (\<lambda>s. case getAudioLevel spectrum s of None \<Rightarrow> None | Some (level, s') \<Rightarrow> Some s') a"
| "perform (SetFrequencyNormalized v) a = onAudio (setFrequencyNormalized v) a"
| "perform (SetAudioLevel v) a = Some (a\<lparr>scene := setAudioLevel v (scene a)\<rparr>)"
| "perform (SetRotation x y) a = Some (a\<lparr>scene := setRotation x y (scene a)\<rparr>)"
| "perform (SetScale v) a = Some (a\<lparr>scene := setScale v (scene a)\<rparr>)"
| "perform (SetPosition x y) a = Some (a\<lparr>scene := setPosition x y (scene a)\<rparr>)"
| "perform (CreateGeometry kind) a = Some (a\<lparr>scene := createGeometry kind (scene a)\<rparr>)"

text \<open>
  Between two events the audio clock may advance. One step of the page is an input
  event, a direct call, or the passing of time.
\<close>

definition elapse :: "real \<Rightarrow> interaction_controller \<Rightarrow> interaction_controller" where
  "elapse dt a =
     a\<lparr>audio := (audio a)\<lparr>audioContext :=
          map_option (\<lambda>c. c\<lparr>currentTime := currentTime c + dt\<rparr>) (audioContext (audio a))\<rparr>\<rparr>"

datatype action = Input event | Call operation | Elapse real

fun step :: "action \<Rightarrow> interaction_controller \<Rightarrow> interaction_controller option" where
  "step (Input e) a = handle e a"
| "step (Call op) a = perform op a"
| "step (Elapse dt) a = Some (elapse dt a)"

text \<open>
  The actions the model speaks about: a pointer position is taken relative to a
  rectangle of positive width and height (the division is then the one JavaScript
  computes), and time does not run backwards.
\<close>

fun valid :: "action \<Rightarrow> bool" where
  "valid (Input (MouseMove x y r)) = (0 < rectWidth r \<and> 0 < rectHeight r)"
| "valid (Input (TouchMove ts r)) = (0 < rectWidth r \<and> 0 < rectHeight r)"
| "valid (Elapse dt) = (0 \<le> dt)"
| "valid other = True"

fun run :: "action list \<Rightarrow> interaction_controller \<Rightarrow> interaction_controller option" where
  "run [] a = Some a"
| "run (x # xs) a = (case step x a of None \<Rightarrow> None | Some a' \<Rightarrow> run xs a')"

text \<open>
  The page starts with a fresh scene, engine and controller, in a window that has
  constructed no audio context yet and whose audio hardware has a positive sample rate.
\<close>

inductive reachable :: "interaction_controller \<Rightarrow> bool" where
  reachable_start:
    "contextsCreated b = 0 \<Longrightarrow> 0 < hardwareSampleRate b \<Longrightarrow> reachable (newInteractionController b st)"
| reachable_step:
    "reachable a \<Longrightarrow> valid x \<Longrightarrow> step x a = Some a' \<Longrightarrow> reachable a'"

section \<open>Activations that overlap\<close>

text \<open>
  JavaScript runs a handler without interruption up to an \<open>await\<close>, and the rest of it
  later, as a task of its own. A click or a press of the space bar is an activation: a
  call of \<open>onClick\<close>, which is at its start, or suspended at its \<open>await\<close>, or has
  completed, or has thrown (its promise is rejected). Other activations and other
  actions may run while one is suspended.
\<close>

datatype activation = NotStarted | Awaiting | Completed | Rejected

text \<open>
  The next segment of activation \<open>i\<close>. A segment that throws leaves the page as it
  was: in the states the page reaches, the first segment throws only where \<open>init\<close>
  finds no \<open>AudioContext\<close> constructor, before it has assigned anything, and the second
  never does.
\<close>

definition advance ::
  "nat \<Rightarrow> interaction_controller \<times> activation list \<Rightarrow> interaction_controller \<times> activation list" where
  "advance i cfg =
     (case cfg of (a, acts) \<Rightarrow>
        if i < length acts
        then (case acts ! i of
                NotStarted \<Rightarrow>
                  (case onClickBegin a of
                     None \<Rightarrow> (a, acts[i := Rejected])
                   | Some (awaiting, a') \<Rightarrow>
                       (a', acts[i := (if awaiting then Awaiting else Completed)]))
              | Awaiting \<Rightarrow>
                  (case onClickResume a of
                     None \<Rightarrow> (a, acts[i := Rejected])
                   | Some a' \<Rightarrow> (a', acts[i := Completed]))
              | Completed \<Rightarrow> (a, acts)
              | Rejected \<Rightarrow> (a, acts))
        else (a, acts))"

text \<open>
  A schedule says what runs next: the next segment of an activation, or some other
  action, handled in one piece.
\<close>

datatype turn = Activation nat | Between action

fun validTurn :: "turn \<Rightarrow> bool" where
  "validTurn (Activation i) = True"
| "validTurn (Between x) = valid x"

fun interleave ::
  "turn list \<Rightarrow> interaction_controller \<times> activation list
     \<Rightarrow> interaction_controller \<times> activation list" where
  "interleave [] cfg = cfg"
| "interleave (Activation i # ts) cfg = interleave ts (advance i cfg)"
| "interleave (Between x # ts) cfg =
     interleave ts (case step x (fst cfg) of None \<Rightarrow> cfg | Some a' \<Rightarrow> (a', snd cfg))"

section \<open>A concrete page\<close>

definition exampleBrowser :: browser where
  "exampleBrowser =
     \<lparr>audioContextAvailable = True, hardwareSampleRate = 2, contextsCreated = 0,
      randomSource = (\<lambda>n. 1 / 2), randomCalls = 0\<rparr>"

definition examplePage :: interaction_controller where
  "examplePage = newInteractionController exampleBrowser ''Click to start''"

text \<open>The page after the first click: the engine is initialized and playing.\<close>

definition startedPage :: interaction_controller where
  "startedPage = (case onClick examplePage of None \<Rightarrow> examplePage | Some a \<Rightarrow> a)"

definition exampleRect :: rect where
  "exampleRect = \<lparr>rectLeft = 0, rectTop = 0, rectWidth = 800, rectHeight = 600\<rparr>"

section \<open>Invariants\<close>

text \<open>
  What the methods rely on once \<open>initialized\<close> is set: the context exists, each
  field they dereference names a node of the right kind in it, the oscillator is
  running and heading to the stored frequency, and \<open>analyserData\<close> has the 128 bins
  of an analyser with \<open>fftSize\<close> 256.
\<close>

fun isRunningOscillator :: "real \<Rightarrow> audio_node \<Rightarrow> bool" where
  "isRunningOscillator f (OscillatorNode t p st sp) = (st \<and> \<not> sp \<and> paramTarget p = f)"
| "isRunningOscillator f _ = False"

fun isGain :: "audio_node \<Rightarrow> bool" where
  "isGain (GainNode g) = True"
| "isGain _ = False"

fun isBiquadFilter :: "audio_node \<Rightarrow> bool" where
  "isBiquadFilter (BiquadFilterNode t f q) = True"
| "isBiquadFilter _ = False"

fun isDelay :: "audio_node \<Rightarrow> bool" where
  "isDelay (DelayNode d) = True"
| "isDelay _ = False"

fun isAnalyser :: "nat \<Rightarrow> audio_node \<Rightarrow> bool" where
  "isAnalyser n (AnalyserNode m) = (m = n)"
| "isAnalyser n _ = False"

definition refers :: "(audio_node \<Rightarrow> bool) \<Rightarrow> nat option \<Rightarrow> audio_context \<Rightarrow> bool" where
  "refers P r c = (case r of None \<Rightarrow> False | Some i \<Rightarrow> i < length (nodes c) \<and> P (nodes c ! i))"

definition graphIn :: "audio_context \<Rightarrow> audio_synthesizer \<Rightarrow> bool" where
  "graphIn c s =
     (refers (isRunningOscillator (currentFrequency s)) (oscillator s) c \<and>
      refers isGain (gainNode s) c \<and>
      refers isBiquadFilter (filterNode s) c \<and>
      refers isDelay (delayNode s) c \<and>
      refers isGain (reverbMixNode s) c \<and>
      refers (isAnalyser 256) (analyser s) c \<and>
      (case analyserData s of None \<Rightarrow> False | Some array \<Rightarrow> length array = 128))"

definition graphReady :: "audio_synthesizer \<Rightarrow> bool" where
  "graphReady s = (case audioContext s of None \<Rightarrow> False | Some c \<Rightarrow> graphIn c s)"

definition paramsInRange :: "audio_synthesizer \<Rightarrow> bool" where
  "paramsInRange s =
     (50 \<le> currentFrequency s \<and> currentFrequency s \<le> 2000 \<and>
      200 \<le> filterFrequency s \<and> filterFrequency s \<le> 5000 \<and>
      1 \<le> filterQ s \<and> filterQ s \<le> 20 \<and>
      0 \<le> reverbMix s \<and> reverbMix s \<le> 1 \<and>
      0 \<le> delayTime s \<and> delayTime s \<le> 0.5)"

text \<open>Before \<open>init\<close>, the engine still has the values its constructor gave it.\<close>

definition untouched :: "audio_synthesizer \<Rightarrow> bool" where
  "untouched s =
     (\<not> isPlaying s \<and> currentFrequency s = 440 \<and> filterFrequency s = 1000 \<and> filterQ s = 5 \<and>
      reverbMix s = 0.3 \<and> delayTime s = 0.2)"

text \<open>The five stored parameters, together.\<close>

definition parameters :: "audio_synthesizer \<Rightarrow> real \<times> real \<times> real \<times> real \<times> real" where
  "parameters s =
     (currentFrequency s, filterFrequency s, filterQ s, reverbMix s, delayTime s)"

definition engineInv :: "audio_synthesizer \<Rightarrow> bool" where
  "engineInv s = (paramsInRange s \<and> (if initialized s then graphReady s else untouched s))"

definition hasMesh :: "scene3d \<Rightarrow> bool" where
  "hasMesh sc = (mesh sc \<noteq> None)"

definition pageInv :: "interaction_controller \<Rightarrow> bool" where
  "pageInv a =
     (engineInv (audio a) \<and>
      0.5 \<le> currentScale (scene a) \<and> currentScale (scene a) \<le> 3 \<and>
      hasMesh (scene a) \<and>
      0 < hardwareSampleRate (window a) \<and>
      contextsCreated (window a) = (if initialized (audio a) then 1 else 0))"

text \<open>The context \<open>setWaveform\<close> leaves behind, and the engine with it.\<close>

definition swapOscillator :: "waveform \<Rightarrow> real \<Rightarrow> nat \<Rightarrow> nat \<Rightarrow> audio_context \<Rightarrow> audio_context" where
  "swapOscillator kind freq old g c =
     c\<lparr>nodes := (case nodes c ! old of
                    OscillatorNode w p st sp \<Rightarrow> (nodes c)[old := OscillatorNode w p st True]
                  | other \<Rightarrow> nodes c)
                 @ [OscillatorNode kind (AudioParam freq []) True False],
       connections := List.insert (length (nodes c), g)
                        (filter (\<lambda>e. fst e \<noteq> old) (connections c))\<rparr>"

text \<open>What \<open>init\<close> builds on an engine that is not initialized.\<close>

definition impulseResponse :: "browser \<Rightarrow> nat \<Rightarrow> audio_buffer" where
  "impulseResponse b rate =
     AudioBuffer
       (map (\<lambda>channel.
              map (\<lambda>i. (randomSource b (randomCalls b + channel * (rate * 2) + i) * 2 - 1)
                        * (1 - real i / real (rate * 2)) ^ 2)
                  [0..<rate * 2])
            [0..<2])
       rate"

definition builtGraph :: "browser \<Rightarrow> audio_synthesizer \<Rightarrow> audio_context" where
  "builtGraph b s =
     \<lparr>currentTime = 0, sampleRate = hardwareSampleRate b,
      nodes =
        [AudioDestinationNode,
         OscillatorNode (waveform s) (AudioParam (currentFrequency s) []) True False,
         GainNode (AudioParam 0 []),
         BiquadFilterNode Lowpass (AudioParam (filterFrequency s) []) (AudioParam (filterQ s) []),
         DelayNode (AudioParam (delayTime s) []),
         GainNode (AudioParam 0.4 []),
         GainNode (AudioParam 0.3 []),
         ConvolverNode (Some (impulseResponse b (hardwareSampleRate b))),
         GainNode (AudioParam (reverbMix s) []),
         GainNode (AudioParam (1 - reverbMix s) []),
         AnalyserNode 256,
         GainNode (AudioParam 0.3 []),
         GainNode (AudioParam 1 [])],
      connections =
        [(11, 0), (10, 11), (12, 10), (8, 12), (9, 12), (7, 8), (9, 7), (6, 9), (3, 9),
         (4, 6), (5, 4), (4, 5), (3, 4), (2, 3), (1, 2)]\<rparr>"

definition built :: "browser \<Rightarrow> audio_synthesizer \<Rightarrow> audio_synthesizer" where
  "built b s =
     s\<lparr>audioContext := Some (builtGraph b s),
       oscillator := Some 1, gainNode := Some 2, filterNode := Some 3, delayNode := Some 4,
       delayFeedback := Some 5, delayMix := Some 6, reverb := Some 7, reverbMixNode := Some 8,
       dryGain := Some 9, analyser := Some 10, analyserData := Some (replicate 128 0),
       masterGain := Some 11, initialized := True\<rparr>"

section \<open>The engine's methods on a ready graph\<close>

lemma paramTarget_ramp [simp]: "paramTarget (linearRampToValueAtTime v t p) = v"
  by (simp add: paramTarget_def linearRampToValueAtTime_def)

lemma paramTarget_setValue_fresh [simp]: "paramTarget (setValue v (AudioParam w [])) = v"
  by (simp add: paramTarget_def setValue_def)

lemma refers_update:
  assumes "refers P r c" and "j < length (nodes c)" and "P (nodes c ! j) \<Longrightarrow> P n"
  shows "refers P r (c\<lparr>nodes := (nodes c)[j := n]\<rparr>)"
  using assms by (auto simp: refers_def nth_list_update split: option.splits)

lemma refersD:
  assumes "refers P r c"
  obtains i where "r = Some i" and "i < length (nodes c)" and "P (nodes c ! i)"
  using assms by (auto simp: refers_def split: option.splits)

lemma graphReadyD:
  assumes "graphReady s"
  obtains c where "audioContext s = Some c" and "graphIn c s"
  using assms by (auto simp: graphReady_def split: option.splits)

text \<open>Replacing a node by one of its kind keeps the graph ready.\<close>

lemma graphIn_node:
  assumes "graphIn c s" and "j < length (nodes c)"
    and "isRunningOscillator (currentFrequency s) (nodes c ! j)
           \<Longrightarrow> isRunningOscillator (currentFrequency s) n"
    and "isGain (nodes c ! j) \<Longrightarrow> isGain n"
    and "isBiquadFilter (nodes c ! j) \<Longrightarrow> isBiquadFilter n"
    and "isDelay (nodes c ! j) \<Longrightarrow> isDelay n"
    and "isAnalyser 256 (nodes c ! j) \<Longrightarrow> isAnalyser 256 n"
  shows "graphIn (c\<lparr>nodes := (nodes c)[j := n]\<rparr>) s"
  using assms by (simp add: graphIn_def refers_update)

lemma gain_ramp_ready:
  assumes "graphIn c s" and "refers isGain r c"
  shows "\<exists>i c'. r = Some i \<and> updNode i (gainGain f) c = Some c' \<and> graphIn c' s \<and>
           currentTime c' = currentTime c"
proof -
  from assms(2) obtain i where i: "r = Some i" "i < length (nodes c)" "isGain (nodes c ! i)"
    by (rule refersD)
  then obtain g where g: "nodes c ! i = GainNode g"
    by (cases "nodes c ! i") auto
  have "graphIn (c\<lparr>nodes := (nodes c)[i := GainNode (f g)]\<rparr>) s"
    by (rule graphIn_node [OF assms(1) i(2)]) (simp_all add: g)
  with i g show ?thesis by (simp add: updNode_def)
qed

lemma start_ready:
  assumes "graphReady s" and "initialized s"
  shows "\<exists>c. start s = Some (s\<lparr>isPlaying := True, audioContext := Some c\<rparr>) \<and> graphIn c s"
proof -
  from assms(1) obtain c where c: "audioContext s = Some c" and g: "graphIn c s"
    by (rule graphReadyD)
  from g have r: "refers isGain (gainNode s) c" by (simp add: graphIn_def)
  from gain_ramp_ready [OF g r, of "linearRampToValueAtTime 0.5 (currentTime c + 0.1)"]
  show ?thesis using assms(2) c
    by (clarsimp simp: start_def onContext_def) blast
qed

lemma stop_ready:
  assumes "graphReady s" and "initialized s"
  shows "\<exists>c. stop s = Some (s\<lparr>isPlaying := False, audioContext := Some c\<rparr>) \<and> graphIn c s"
proof -
  from assms(1) obtain c where c: "audioContext s = Some c" and g: "graphIn c s"
    by (rule graphReadyD)
  from g have r: "refers isGain (gainNode s) c" by (simp add: graphIn_def)
  from gain_ramp_ready [OF g r, of "linearRampToValueAtTime 0 (currentTime c + 0.1)"]
  show ?thesis using assms(2) c
    by (clarsimp simp: stop_def onContext_def) blast
qed

lemma setReverbMix_ready:
  assumes "graphReady s" and "initialized s"
  shows "\<exists>c. setReverbMix v s = Some (s\<lparr>reverbMix := max 0 (min 1 v), audioContext := Some c\<rparr>)
           \<and> graphIn c s"
proof -
  from assms(1) obtain c where c: "audioContext s = Some c" and g: "graphIn c s"
    by (rule graphReadyD)
  from g have r: "refers isGain (reverbMixNode s) c" by (simp add: graphIn_def)
  from gain_ramp_ready [OF g r,
      of "linearRampToValueAtTime (max 0 (min 1 v)) (currentTime c + 0.05)"]
  show ?thesis using assms(2) c
    by (clarsimp simp: setReverbMix_def onContext_def) blast
qed

lemma setFilterFrequency_ready:
  assumes "graphReady s" and "initialized s"
  shows "\<exists>c. setFilterFrequency v s
             = Some (s\<lparr>filterFrequency := max 200 (min 5000 v), audioContext := Some c\<rparr>)
           \<and> graphIn c s"
proof -
  from assms(1) obtain c where c: "audioContext s = Some c" and g: "graphIn c s"
    by (rule graphReadyD)
  from g have "refers isBiquadFilter (filterNode s) c" by (simp add: graphIn_def)
  then obtain i where i: "filterNode s = Some i" "i < length (nodes c)" "isBiquadFilter (nodes c ! i)"
    by (rule refersD)
  then obtain t fr q where n: "nodes c ! i = BiquadFilterNode t fr q"
    by (cases "nodes c ! i") auto
  let ?n = "BiquadFilterNode t
              (linearRampToValueAtTime (max 200 (min 5000 v)) (currentTime c + 0.05) fr) q"
  have "graphIn (c\<lparr>nodes := (nodes c)[i := ?n]\<rparr>) s"
    by (rule graphIn_node [OF g i(2)]) (simp_all add: n)
  then show ?thesis using assms(2) c i n
    by (intro exI [of _ "c\<lparr>nodes := (nodes c)[i := ?n]\<rparr>"])
       (simp add: setFilterFrequency_def onContext_def updNode_def)
qed

lemma setFilterQ_ready:
  assumes "graphReady s" and "initialized s"
  shows "\<exists>c. setFilterQ v s = Some (s\<lparr>filterQ := max 1 (min 20 v), audioContext := Some c\<rparr>)
           \<and> graphIn c s"
proof -
  from assms(1) obtain c where c: "audioContext s = Some c" and g: "graphIn c s"
    by (rule graphReadyD)
  from g have "refers isBiquadFilter (filterNode s) c" by (simp add: graphIn_def)
  then obtain i where i: "filterNode s = Some i" "i < length (nodes c)" "isBiquadFilter (nodes c ! i)"
    by (rule refersD)
  then obtain t fr q where n: "nodes c ! i = BiquadFilterNode t fr q"
    by (cases "nodes c ! i") auto
  let ?n = "BiquadFilterNode t fr
              (linearRampToValueAtTime (max 1 (min 20 v)) (currentTime c + 0.05) q)"
  have "graphIn (c\<lparr>nodes := (nodes c)[i := ?n]\<rparr>) s"
    by (rule graphIn_node [OF g i(2)]) (simp_all add: n)
  then show ?thesis using assms(2) c i n
    by (intro exI [of _ "c\<lparr>nodes := (nodes c)[i := ?n]\<rparr>"])
       (simp add: setFilterQ_def onContext_def updNode_def)
qed

lemma setDelayTime_ready:
  assumes "graphReady s" and "initialized s"
  shows "\<exists>c. setDelayTime v s = Some (s\<lparr>delayTime := max 0 (min 0.5 v), audioContext := Some c\<rparr>)
           \<and> graphIn c s"
proof -
  from assms(1) obtain c where c: "audioContext s = Some c" and g: "graphIn c s"
    by (rule graphReadyD)
  from g have "refers isDelay (delayNode s) c" by (simp add: graphIn_def)
  then obtain i where i: "delayNode s = Some i" "i < length (nodes c)" "isDelay (nodes c ! i)"
    by (rule refersD)
  then obtain d where n: "nodes c ! i = DelayNode d"
    by (cases "nodes c ! i") auto
  let ?n = "DelayNode (linearRampToValueAtTime (max 0 (min 0.5 v)) (currentTime c + 0.05) d)"
  have "graphIn (c\<lparr>nodes := (nodes c)[i := ?n]\<rparr>) s"
    by (rule graphIn_node [OF g i(2)]) (simp_all add: n)
  then show ?thesis using assms(2) c i n
    by (intro exI [of _ "c\<lparr>nodes := (nodes c)[i := ?n]\<rparr>"])
       (simp add: setDelayTime_def onContext_def updNode_def)
qed

lemma osc_ramp_ready:
  assumes "graphIn c s"
  shows "\<exists>i c'. oscillator s = Some i \<and>
           updNode i (oscFrequency (linearRampToValueAtTime v t)) c = Some c' \<and>
           graphIn c' (s\<lparr>currentFrequency := v\<rparr>)"
proof -
  from assms have "refers (isRunningOscillator (currentFrequency s)) (oscillator s) c"
    by (simp add: graphIn_def)
  then obtain i where i: "oscillator s = Some i" "i < length (nodes c)"
      "isRunningOscillator (currentFrequency s) (nodes c ! i)"
    by (rule refersD)
  then obtain w p where n: "nodes c ! i = OscillatorNode w p True False"
    by (cases "nodes c ! i") auto
  define c' where "c' = c\<lparr>nodes := (nodes c)[i := OscillatorNode w (linearRampToValueAtTime v t p) True False]\<rparr>"
  have upd: "refers P r c'" if "refers P r c" and "\<not> P (OscillatorNode w p True False)" for P r
    unfolding c'_def using that i(2) n by (intro refers_update) simp_all
  have osc: "refers (isRunningOscillator v) (oscillator s) c'"
    using i by (simp add: refers_def c'_def)
  have "graphIn c' (s\<lparr>currentFrequency := v\<rparr>)"
    using assms osc by (auto simp: graphIn_def intro!: upd)
  moreover have "updNode i (oscFrequency (linearRampToValueAtTime v t)) c = Some c'"
    using i n by (simp add: updNode_def c'_def)
  ultimately show ?thesis using i by blast
qed

lemma setFrequency_ready:
  assumes "graphReady s" and "initialized s"
  shows "\<exists>c. setFrequency v s
             = Some (s\<lparr>currentFrequency := max 50 (min 2000 v), audioContext := Some c\<rparr>)
           \<and> graphIn c (s\<lparr>currentFrequency := max 50 (min 2000 v)\<rparr>)"
proof -
  from assms(1) obtain c where c: "audioContext s = Some c" and g: "graphIn c s"
    by (rule graphReadyD)
  from osc_ramp_ready [OF g, of "max 50 (min 2000 v)" "currentTime c + 0.05"]
  show ?thesis using assms(2) c
    by (clarsimp simp: setFrequency_def onContext_def) blast
qed

lemma update_last_appended:
  "(xs[i := a] @ [x])[length xs := y] = xs[i := a] @ [y]"
  by (simp add: list_update_append)

lemma setWaveform_ready:
  assumes "graphReady s" and "initialized s"
  shows "\<exists>c old g. audioContext s = Some c \<and> oscillator s = Some old \<and> gainNode s = Some g \<and>
           old < length (nodes c) \<and> g < length (nodes c) \<and> old \<noteq> g \<and>
           isRunningOscillator (currentFrequency s) (nodes c ! old) \<and>
           setWaveform kind s =
             Some (s\<lparr>waveform := kind,
                     audioContext := Some (swapOscillator kind (currentFrequency s) old g c),
                     oscillator := Some (length (nodes c))\<rparr>) \<and>
           graphIn (swapOscillator kind (currentFrequency s) old g c)
                   (s\<lparr>oscillator := Some (length (nodes c))\<rparr>)"
proof -
  from assms(1) obtain c where c: "audioContext s = Some c" and gi: "graphIn c s"
    by (rule graphReadyD)
  from gi have "refers (isRunningOscillator (currentFrequency s)) (oscillator s) c"
    by (simp add: graphIn_def)
  then obtain i where i: "oscillator s = Some i" "i < length (nodes c)"
      "isRunningOscillator (currentFrequency s) (nodes c ! i)"
    by (rule refersD)
  then obtain w p where n: "nodes c ! i = OscillatorNode w p True False"
    by (cases "nodes c ! i") auto
  from gi have "refers isGain (gainNode s) c"
    by (simp add: graphIn_def)
  then obtain g where g: "gainNode s = Some g" "g < length (nodes c)" "isGain (nodes c ! g)"
    by (rule refersD)
  from g(3) n have ig: "i \<noteq> g" by auto
  let ?c = "swapOscillator kind (currentFrequency s) i g c"
  have nodes: "nodes ?c = (nodes c)[i := OscillatorNode w p True True]
                 @ [OscillatorNode kind (AudioParam (currentFrequency s) []) True False]"
    by (simp add: swapOscillator_def n)
  have keep: "refers P r ?c" if "refers P r c" and "\<not> P (OscillatorNode w p True False)" for P r
  proof -
    from that(1) obtain j where j: "r = Some j" "j < length (nodes c)" "P (nodes c ! j)"
      by (rule refersD)
    with that(2) n have "j \<noteq> i" by auto
    then show ?thesis using j by (simp add: refers_def nodes nth_append)
  qed
  have new: "refers (isRunningOscillator (currentFrequency s)) (Some (length (nodes c))) ?c"
    by (simp add: refers_def nodes nth_append paramTarget_def)
  have "graphIn ?c (s\<lparr>oscillator := Some (length (nodes c))\<rparr>)"
    using gi new by (auto simp: graphIn_def intro!: keep)
  moreover have "setWaveform kind s =
             Some (s\<lparr>waveform := kind, audioContext := Some ?c,
                     oscillator := Some (length (nodes c))\<rparr>)"
    using assms(2) c i n g
    by (simp add: setWaveform_def onContext_def create_def createOscillator_def createNode_def
        updNode_def disconnect_def connect_def swapOscillator_def setValue_def nth_append
        update_last_appended)
  ultimately show ?thesis using c i g ig by simp
qed

lemma getAudioLevel_ready:
  assumes "graphReady s" and "initialized s"
  shows "\<exists>array. analyserData s = Some array \<and> length array = 128 \<and>
           getAudioLevel spectrum s =
             Some ((foldl (\<lambda>sum x. sum + real (unat x)) 0
                      (getByteFrequencyData (take 128 spectrum) array) / 128) / 255,
                   s\<lparr>analyserData := Some (getByteFrequencyData (take 128 spectrum) array)\<rparr>)"
proof -
  from assms(1) obtain c where c: "audioContext s = Some c" and gi: "graphIn c s"
    by (rule graphReadyD)
  from gi have "refers (isAnalyser 256) (analyser s) c"
    by (simp add: graphIn_def)
  then obtain i where i: "analyser s = Some i" "i < length (nodes c)"
      "isAnalyser 256 (nodes c ! i)"
    by (rule refersD)
  then have n: "nodes c ! i = AnalyserNode 256"
    by (cases "nodes c ! i") auto
  from gi obtain array where a: "analyserData s = Some array" "length array = 128"
    by (auto simp: graphIn_def split: option.splits)
  have "length (getByteFrequencyData (take 128 spectrum) array) = 128"
    using a(2) by (simp add: getByteFrequencyData_def)
  moreover have "(if i < length (nodes c) then frequencyBinCount (nodes c ! i) else None) = Some 128"
    using i(2) n by simp
  ultimately show ?thesis using assms(2) c i(1) a
    by (simp add: getAudioLevel_def Let_def)
qed

lemma init_fresh:
  assumes "\<not> initialized s" and "audioContextAvailable b" and "0 < hardwareSampleRate b"
  shows "init b s =
           Some (b\<lparr>contextsCreated := contextsCreated b + 1,
                   randomCalls := randomCalls b + 2 * (hardwareSampleRate b * 2)\<rparr>,
                 built b s)"
  using assms
  by (simp add: init_def newAudioContext_def create_def onContext_def updNode_def
      createOscillator_def createGain_def createBiquadFilter_def createDelay_def
      createConvolver_def createAnalyser_def createNode_def connect_def destination_def
      generateReverbImpulse_def setValue_def Let_def built_def builtGraph_def
      impulseResponse_def)

section \<open>The engine's methods keep the engine's invariant\<close>

lemma graphReady_intro:
  assumes "audioContext s = Some c" and "graphIn c s"
  shows "graphReady s"
  using assms by (simp add: graphReady_def)

lemma clamp_bounds:
  fixes lo hi v :: real
  assumes "lo \<le> hi"
  shows "lo \<le> max lo (min hi v)" and "max lo (min hi v) \<le> hi"
  using assms by auto

lemma start_spec:
  assumes "engineInv s"
  shows "\<exists>s'. start s = Some s' \<and> engineInv s' \<and> initialized s' = initialized s \<and>
           (if initialized s then \<exists>c. s' = s\<lparr>isPlaying := True, audioContext := Some c\<rparr>
            else s' = s)"
proof (cases "initialized s")
  case True
  with assms have "graphReady s" by (simp add: engineInv_def)
  from start_ready [OF this True] obtain c
    where c: "start s = Some (s\<lparr>isPlaying := True, audioContext := Some c\<rparr>)" "graphIn c s"
    by blast
  have "graphReady (s\<lparr>isPlaying := True, audioContext := Some c\<rparr>)"
    using c(2) by (intro graphReady_intro [of _ c]) (simp_all add: graphIn_def)
  with assms True have "engineInv (s\<lparr>isPlaying := True, audioContext := Some c\<rparr>)"
    by (simp add: engineInv_def paramsInRange_def)
  with c(1) True show ?thesis by auto
next
  case False
  with assms show ?thesis by (simp add: start_def)
qed

lemma stop_spec:
  assumes "engineInv s"
  shows "\<exists>s'. stop s = Some s' \<and> engineInv s' \<and> initialized s' = initialized s \<and>
           (if initialized s then \<exists>c. s' = s\<lparr>isPlaying := False, audioContext := Some c\<rparr>
            else s' = s)"
proof (cases "initialized s")
  case True
  with assms have "graphReady s" by (simp add: engineInv_def)
  from stop_ready [OF this True] obtain c
    where c: "stop s = Some (s\<lparr>isPlaying := False, audioContext := Some c\<rparr>)" "graphIn c s"
    by blast
  have "graphReady (s\<lparr>isPlaying := False, audioContext := Some c\<rparr>)"
    using c(2) by (intro graphReady_intro [of _ c]) (simp_all add: graphIn_def)
  with assms True have "engineInv (s\<lparr>isPlaying := False, audioContext := Some c\<rparr>)"
    by (simp add: engineInv_def paramsInRange_def)
  with c(1) True show ?thesis by auto
next
  case False
  with assms show ?thesis by (simp add: stop_def)
qed

lemma setFrequency_spec:
  assumes "engineInv s"
  shows "\<exists>s'. setFrequency v s = Some s' \<and> engineInv s' \<and> initialized s' = initialized s \<and>
           (if initialized s
            then \<exists>c. s' = s\<lparr>currentFrequency := max 50 (min 2000 v), audioContext := Some c\<rparr>
            else s' = s)"
proof (cases "initialized s")
  case True
  let ?v = "max 50 (min 2000 v)"
  from assms True have "graphReady s" by (simp add: engineInv_def)
  from setFrequency_ready [OF this True, of v] obtain c
    where c: "setFrequency v s = Some (s\<lparr>currentFrequency := ?v, audioContext := Some c\<rparr>)"
      "graphIn c (s\<lparr>currentFrequency := ?v\<rparr>)"
    by blast
  have "graphReady (s\<lparr>currentFrequency := ?v, audioContext := Some c\<rparr>)"
    using c(2) by (intro graphReady_intro [of _ c]) (simp_all add: graphIn_def)
  with assms True have "engineInv (s\<lparr>currentFrequency := ?v, audioContext := Some c\<rparr>)"
    by (simp add: engineInv_def paramsInRange_def)
  with c(1) True show ?thesis by auto
next
  case False
  with assms show ?thesis by (simp add: setFrequency_def)
qed

lemma setFilterFrequency_spec:
  assumes "engineInv s"
  shows "\<exists>s'. setFilterFrequency v s = Some s' \<and> engineInv s' \<and> initialized s' = initialized s \<and>
           (if initialized s
            then \<exists>c. s' = s\<lparr>filterFrequency := max 200 (min 5000 v), audioContext := Some c\<rparr>
            else s' = s)"
proof (cases "initialized s")
  case True
  let ?v = "max 200 (min 5000 v)"
  from assms True have "graphReady s" by (simp add: engineInv_def)
  from setFilterFrequency_ready [OF this True, of v] obtain c
    where c: "setFilterFrequency v s = Some (s\<lparr>filterFrequency := ?v, audioContext := Some c\<rparr>)"
      "graphIn c s"
    by blast
  have "graphReady (s\<lparr>filterFrequency := ?v, audioContext := Some c\<rparr>)"
    using c(2) by (intro graphReady_intro [of _ c]) (simp_all add: graphIn_def)
  with assms True have "engineInv (s\<lparr>filterFrequency := ?v, audioContext := Some c\<rparr>)"
    by (simp add: engineInv_def paramsInRange_def)
  with c(1) True show ?thesis by auto
next
  case False
  with assms show ?thesis by (simp add: setFilterFrequency_def)
qed

lemma setFilterQ_spec:
  assumes "engineInv s"
  shows "\<exists>s'. setFilterQ v s = Some s' \<and> engineInv s' \<and> initialized s' = initialized s \<and>
           (if initialized s
            then \<exists>c. s' = s\<lparr>filterQ := max 1 (min 20 v), audioContext := Some c\<rparr>
            else s' = s)"
proof (cases "initialized s")
  case True
  let ?v = "max 1 (min 20 v)"
  from assms True have "graphReady s" by (simp add: engineInv_def)
  from setFilterQ_ready [OF this True, of v] obtain c
    where c: "setFilterQ v s = Some (s\<lparr>filterQ := ?v, audioContext := Some c\<rparr>)"
      "graphIn c s"
    by blast
  have "graphReady (s\<lparr>filterQ := ?v, audioContext := Some c\<rparr>)"
    using c(2) by (intro graphReady_intro [of _ c]) (simp_all add: graphIn_def)
  with assms True have "engineInv (s\<lparr>filterQ := ?v, audioContext := Some c\<rparr>)"
    by (simp add: engineInv_def paramsInRange_def)
  with c(1) True show ?thesis by auto
next
  case False
  with assms show ?thesis by (simp add: setFilterQ_def)
qed

lemma setReverbMix_spec:
  assumes "engineInv s"
  shows "\<exists>s'. setReverbMix v s = Some s' \<and> engineInv s' \<and> initialized s' = initialized s \<and>
           (if initialized s
            then \<exists>c. s' = s\<lparr>reverbMix := max 0 (min 1 v), audioContext := Some c\<rparr>
            else s' = s)"
proof (cases "initialized s")
  case True
  let ?v = "max 0 (min 1 v)"
  from assms True have "graphReady s" by (simp add: engineInv_def)
  from setReverbMix_ready [OF this True, of v] obtain c
    where c: "setReverbMix v s = Some (s\<lparr>reverbMix := ?v, audioContext := Some c\<rparr>)"
      "graphIn c s"
    by blast
  have "graphReady (s\<lparr>reverbMix := ?v, audioContext := Some c\<rparr>)"
    using c(2) by (intro graphReady_intro [of _ c]) (simp_all add: graphIn_def)
  with assms True have "engineInv (s\<lparr>reverbMix := ?v, audioContext := Some c\<rparr>)"
    by (simp add: engineInv_def paramsInRange_def)
  with c(1) True show ?thesis by auto
next
  case False
  with assms show ?thesis by (simp add: setReverbMix_def)
qed

lemma setDelayTime_spec:
  assumes "engineInv s"
  shows "\<exists>s'. setDelayTime v s = Some s' \<and> engineInv s' \<and> initialized s' = initialized s \<and>
           (if initialized s
            then \<exists>c. s' = s\<lparr>delayTime := max 0 (min 0.5 v), audioContext := Some c\<rparr>
            else s' = s)"
proof (cases "initialized s")
  case True
  let ?v = "max 0 (min 0.5 v)"
  from assms True have "graphReady s" by (simp add: engineInv_def)
  from setDelayTime_ready [OF this True, of v] obtain c
    where c: "setDelayTime v s = Some (s\<lparr>delayTime := ?v, audioContext := Some c\<rparr>)"
      "graphIn c s"
    by blast
  have "graphReady (s\<lparr>delayTime := ?v, audioContext := Some c\<rparr>)"
    using c(2) by (intro graphReady_intro [of _ c]) (simp_all add: graphIn_def)
  with assms True have "engineInv (s\<lparr>delayTime := ?v, audioContext := Some c\<rparr>)"
    by (simp add: engineInv_def paramsInRange_def)
  with c(1) True show ?thesis by auto
next
  case False
  with assms show ?thesis by (simp add: setDelayTime_def)
qed

lemma setFrequencyNormalized_spec:
  assumes "engineInv s"
  shows "\<exists>s'. setFrequencyNormalized v s = Some s' \<and> engineInv s' \<and> initialized s' = initialized s \<and>
           (if initialized s
            then \<exists>c. s' = s\<lparr>currentFrequency := max 50 (min 2000 (110 * 16 powr v)),
                              audioContext := Some c\<rparr>
            else s' = s)"
  using setFrequency_spec [OF assms, of "110 * 16 powr v"]
  by (simp add: setFrequencyNormalized_def)

lemma setWaveform_spec:
  assumes "engineInv s"
  shows "\<exists>s'. setWaveform kind s = Some s' \<and> engineInv s' \<and> initialized s' = initialized s \<and>
           (if initialized s
            then \<exists>c n. s' = s\<lparr>waveform := kind, audioContext := Some c, oscillator := Some n\<rparr>
            else s' = s\<lparr>waveform := kind\<rparr>)"
proof (cases "initialized s")
  case True
  from assms True have "graphReady s" by (simp add: engineInv_def)
  from setWaveform_ready [OF this True, of kind] obtain c n
    where c: "setWaveform kind s
                = Some (s\<lparr>waveform := kind, audioContext := Some c, oscillator := Some n\<rparr>)"
      "graphIn c (s\<lparr>oscillator := Some n\<rparr>)"
    by blast
  have "graphReady (s\<lparr>waveform := kind, audioContext := Some c, oscillator := Some n\<rparr>)"
    using c(2) by (intro graphReady_intro [of _ c]) (simp_all add: graphIn_def)
  with assms True
  have "engineInv (s\<lparr>waveform := kind, audioContext := Some c, oscillator := Some n\<rparr>)"
    by (simp add: engineInv_def paramsInRange_def)
  with c(1) True show ?thesis by auto
next
  case False
  with assms show ?thesis
    by (simp add: setWaveform_def engineInv_def paramsInRange_def untouched_def)
qed

lemma getAudioLevel_spec:
  assumes "engineInv s"
  shows "\<exists>level s'. getAudioLevel spectrum s = Some (level, s') \<and> engineInv s' \<and>
           initialized s' = initialized s \<and>
           (if initialized s then \<exists>array. s' = s\<lparr>analyserData := Some array\<rparr> else s' = s)"
proof (cases "initialized s")
  case True
  from assms True have gr: "graphReady s" by (simp add: engineInv_def)
  then obtain c where c: "audioContext s = Some c" "graphIn c s"
    by (rule graphReadyD)
  from getAudioLevel_ready [OF gr True, of spectrum] obtain array level
    where a: "length array = 128"
      "getAudioLevel spectrum s
         = Some (level, s\<lparr>analyserData := Some (getByteFrequencyData (take 128 spectrum) array)\<rparr>)"
    by blast
  let ?s = "s\<lparr>analyserData := Some (getByteFrequencyData (take 128 spectrum) array)\<rparr>"
  have "graphReady ?s"
    using c a(1) by (intro graphReady_intro [of _ c])
      (simp_all add: graphIn_def getByteFrequencyData_def)
  with assms True have "engineInv ?s"
    by (simp add: engineInv_def paramsInRange_def)
  with a(2) True show ?thesis by auto
next
  case False
  with assms show ?thesis by (simp add: getAudioLevel_def)
qed

lemma built_ready: "graphReady (built b s)"
  by (simp add: graphReady_def built_def builtGraph_def graphIn_def refers_def paramTarget_def)

lemma init_spec:
  assumes "engineInv s" and "0 < hardwareSampleRate b"
  shows "if initialized s then init b s = Some (b, s)
         else if audioContextAvailable b
           then init b s = Some (b\<lparr>contextsCreated := contextsCreated b + 1,
                                   randomCalls := randomCalls b + 2 * (hardwareSampleRate b * 2)\<rparr>,
                                 built b s) \<and> engineInv (built b s)
           else init b s = None"
proof -
  have "engineInv (built b s)"
    using assms(1) built_ready [of b s]
    by (simp add: engineInv_def paramsInRange_def) (simp add: built_def)
  then show ?thesis
    using assms(2) by (auto simp: init_fresh) (simp_all add: init_def newAudioContext_def)
qed

section \<open>Every step keeps the page's invariant\<close>

lemma scene_setters [simp]:
  "currentScale (setRotation x y sc) = currentScale sc"
  "hasMesh (setRotation x y sc) = hasMesh sc"
  "currentScale (setAudioLevel v sc) = currentScale sc"
  "hasMesh (setAudioLevel v sc) = hasMesh sc"
  "currentScale (setPosition x y sc) = currentScale sc"
  "hasMesh (setPosition x y sc) = hasMesh sc"
  "currentScale (createGeometry kind sc) = currentScale sc"
  "hasMesh (createGeometry kind sc)"
  "currentScale (setScale v sc) = max 0.5 (min 3 v)"
  "hasMesh (setScale v sc) = hasMesh sc"
  by (simp_all add: setRotation_def setAudioLevel_def setPosition_def createGeometry_def
      setScale_def hasMesh_def Let_def split: option.splits)

lemma engine_step_initialized:
  assumes "if initialized s then \<exists>c. s' = f c s else s' = s"
    and "\<And>c. initialized (f c s) = initialized s"
  shows "initialized s' = initialized s"
  using assms by (auto split: if_splits)

lemma onMouseMove_spec:
  assumes "pageInv a"
  shows "\<exists>a'. onMouseMove x y r a = Some a' \<and> pageInv a' \<and>
           initialized (audio a') = initialized (audio a) \<and>
           mouseX a' = (x - rectLeft r) / rectWidth r \<and>
           mouseY a' = (y - rectTop r) / rectHeight r \<and>
           (initialized (audio a) \<longrightarrow>
              filterFrequency (audio a') = max 200 (min 5000 (200 + mouseX a' * 4800)) \<and>
              filterQ (audio a') = max 1 (min 20 (1 + mouseY a' * 19))) \<and>
           (initialized (audio a) \<and> isDragging a \<longrightarrow>
              delayTime (audio a')
                = max 0 (min 0.5 (\<bar>(x - dragStartX a) / rectWidth r\<bar> * 0.5)) \<and>
              reverbMix (audio a') = max 0 (min 1 \<bar>(y - dragStartY a) / rectHeight r\<bar>))"
proof -
  define mx where "mx = (x - rectLeft r) / rectWidth r"
  define my where "my = (y - rectTop r) / rectHeight r"
  define dx where "dx = (x - dragStartX a) / rectWidth r"
  define dy where "dy = (y - dragStartY a) / rectHeight r"
  define ff where "ff = max 200 (min 5000 (200 + mx * 4800))"
  define fq where "fq = max 1 (min 20 (1 + my * 19))"
  define dt where "dt = max 0 (min 0.5 (\<bar>dx\<bar> * 0.5))"
  define rm where "rm = max 0 (min 1 \<bar>dy\<bar>)"
  from assms have e0: "engineInv (audio a)" by (simp add: pageInv_def)
  from setFilterFrequency_spec [OF e0, of "200 + mx * 4800", folded ff_def] obtain s1
    where s1: "setFilterFrequency (200 + mx * 4800) (audio a) = Some s1" "engineInv s1"
      "initialized s1 = initialized (audio a)"
      "if initialized (audio a)
       then \<exists>c. s1 = (audio a)\<lparr>filterFrequency := ff, audioContext := Some c\<rparr>
       else s1 = audio a"
    by blast
  from setFilterQ_spec [OF s1(2), of "1 + my * 19", folded fq_def] obtain s2
    where s2: "setFilterQ (1 + my * 19) s1 = Some s2" "engineInv s2"
      "initialized s2 = initialized s1"
      "if initialized s1 then \<exists>c. s2 = s1\<lparr>filterQ := fq, audioContext := Some c\<rparr> else s2 = s1"
    by blast
  from setDelayTime_spec [OF s2(2), of "\<bar>dx\<bar> * 0.5", folded dt_def] obtain s3
    where s3: "setDelayTime (\<bar>dx\<bar> * 0.5) s2 = Some s3" "engineInv s3"
      "initialized s3 = initialized s2"
      "if initialized s2 then \<exists>c. s3 = s2\<lparr>delayTime := dt, audioContext := Some c\<rparr> else s3 = s2"
    by blast
  from setReverbMix_spec [OF s3(2), of "\<bar>dy\<bar>", folded rm_def] obtain s4
    where s4: "setReverbMix \<bar>dy\<bar> s3 = Some s4" "engineInv s4"
      "initialized s4 = initialized s3"
      "if initialized s3 then \<exists>c. s4 = s3\<lparr>reverbMix := rm, audioContext := Some c\<rparr> else s4 = s3"
    by blast
  have f2: "initialized (audio a) \<longrightarrow> filterFrequency s2 = ff \<and> filterQ s2 = fq"
    using s1(3,4) s2(4) by (auto split: if_splits)
  have f4: "initialized (audio a) \<longrightarrow>
              filterFrequency s4 = ff \<and> filterQ s4 = fq \<and> delayTime s4 = dt \<and> reverbMix s4 = rm"
    using f2 s1(3) s2(3) s3(3,4) s4(4) by (auto split: if_splits)
  define a1 where "a1 = a\<lparr>mouseX := mx, mouseY := my,
      scene := setRotation ((my - 0.5) * pi * 2) ((mx - 0.5) * pi * 2) (scene a)\<rparr>"
  define a' where "a' = (if isDragging a
      then a1\<lparr>audio := s4, shapeOffsetX := dx * 4, shapeOffsetY := - dy * 4,
              scene := setPosition (dx * 4) (- dy * 4) (scene a1)\<rparr>
      else a1\<lparr>audio := s2\<rparr>)"
  have "onMouseMove x y r a = Some a'"
    unfolding onMouseMove_def Let_def mx_def [symmetric] my_def [symmetric]
    using s1(1) s2(1) s3(1) s4(1)
    by (simp add: a'_def a1_def dx_def dy_def mx_def my_def)
  moreover have "pageInv a'"
    using assms s1(3) s2(2,3) s3(3) s4(2,3) by (simp add: pageInv_def a'_def a1_def)
  moreover have "initialized (audio a') = initialized (audio a)"
    using s1(3) s2(3) s3(3) s4(3) by (simp add: a'_def a1_def)
  moreover have m: "mouseX a' = mx" "mouseY a' = my"
    by (simp_all add: a'_def a1_def)
  moreover have "initialized (audio a) \<longrightarrow>
      filterFrequency (audio a') = max 200 (min 5000 (200 + mouseX a' * 4800)) \<and>
      filterQ (audio a') = max 1 (min 20 (1 + mouseY a' * 19))"
    unfolding m using f2 f4 unfolding ff_def fq_def by (simp add: a'_def a1_def)
  moreover have "initialized (audio a) \<and> isDragging a \<longrightarrow>
      delayTime (audio a') = max 0 (min 0.5 (\<bar>(x - dragStartX a) / rectWidth r\<bar> * 0.5)) \<and>
      reverbMix (audio a') = max 0 (min 1 \<bar>(y - dragStartY a) / rectHeight r\<bar>)"
    using f4 unfolding dt_def rm_def dx_def dy_def by (simp add: a'_def a1_def)
  ultimately show ?thesis unfolding mx_def my_def by blast
qed

lemma onWheel_spec:
  assumes "pageInv a"
  shows "\<exists>a'. onWheel deltaY a = Some a' \<and> pageInv a' \<and>
           initialized (audio a') = initialized (audio a) \<and>
           currentScale (scene a')
             = max 0.5 (min 3 (currentScale (scene a) + (if deltaY > 0 then - 0.1 else 0.1))) \<and>
           (initialized (audio a) \<longrightarrow>
              currentFrequency (audio a')
                = max 50 (min 2000 (110 * 16 powr ((currentScale (scene a') - 0.5) / 2.5))))"
proof -
  define sc where
    "sc = max 0.5 (min 3 (currentScale (scene a) + (if deltaY > 0 then - 0.1 else 0.1)))"
  define fr where "fr = max 50 (min 2000 (110 * 16 powr ((sc - 0.5) / 2.5)))"
  have "0.5 \<le> sc" and "sc \<le> 3"
    unfolding sc_def by (rule clamp_bounds, simp)+
  then have clamp: "max 0.5 (min 3 sc) = sc" by simp
  from assms have e0: "engineInv (audio a)" by (simp add: pageInv_def)
  from setFrequencyNormalized_spec [OF e0, of "(sc - 0.5) / 2.5", folded fr_def] obtain s1
    where s1: "setFrequencyNormalized ((sc - 0.5) / 2.5) (audio a) = Some s1" "engineInv s1"
      "initialized s1 = initialized (audio a)"
      "if initialized (audio a)
       then \<exists>c. s1 = (audio a)\<lparr>currentFrequency := fr, audioContext := Some c\<rparr>
       else s1 = audio a"
    by blast
  have f1: "initialized (audio a) \<longrightarrow> currentFrequency s1 = fr"
    using s1(4) by (auto split: if_splits)
  define a' where "a' = a\<lparr>scene := setScale sc (scene a), audio := s1\<rparr>"
  have "onWheel deltaY a = Some a'"
    unfolding onWheel_def Let_def sc_def [symmetric] using s1(1) by (simp add: a'_def)
  moreover have "pageInv a'"
    using assms s1(2,3) \<open>0.5 \<le> sc\<close> \<open>sc \<le> 3\<close> clamp by (simp add: pageInv_def a'_def)
  moreover have "initialized (audio a') = initialized (audio a)"
    using s1(3) by (simp add: a'_def)
  moreover have "currentScale (scene a') = sc"
    using clamp by (simp add: a'_def)
  moreover have "initialized (audio a) \<longrightarrow>
      currentFrequency (audio a') = max 50 (min 2000 (110 * 16 powr ((currentScale (scene a') - 0.5) / 2.5)))"
    using f1 unfolding \<open>currentScale (scene a') = sc\<close> fr_def by (simp add: a'_def)
  ultimately show ?thesis unfolding sc_def by blast
qed

lemma toggleSound_spec:
  assumes "pageInv a"
  shows "\<exists>a'. toggleSound a = Some a' \<and> pageInv a' \<and>
           initialized (audio a') = initialized (audio a) \<and> window a' = window a \<and>
           scene a' = scene a \<and> parameters (audio a') = parameters (audio a)"
proof -
  from assms have e0: "engineInv (audio a)" by (simp add: pageInv_def)
  show ?thesis
  proof (cases "isPlaying (audio a)")
    case True
    from stop_spec [OF e0] obtain s1
      where s1: "stop (audio a) = Some s1" "engineInv s1"
        "initialized s1 = initialized (audio a)"
        "if initialized (audio a)
         then \<exists>c. s1 = (audio a)\<lparr>isPlaying := False, audioContext := Some c\<rparr>
         else s1 = audio a"
      by blast
    have i1: "initialized s1 = initialized (audio a)"
      using s1(3) by simp
    have "parameters s1 = parameters (audio a)"
      using s1(4) by (auto simp: parameters_def split: if_splits)
    then show ?thesis using True assms s1(1,2) i1
      by (simp add: toggleSound_def pageInv_def)
  next
    case False
    from start_spec [OF e0] obtain s1
      where s1: "start (audio a) = Some s1" "engineInv s1"
        "initialized s1 = initialized (audio a)"
        "if initialized (audio a)
         then \<exists>c. s1 = (audio a)\<lparr>isPlaying := True, audioContext := Some c\<rparr>
         else s1 = audio a"
      by blast
    have i1: "initialized s1 = initialized (audio a)"
      using s1(3) by simp
    have "parameters s1 = parameters (audio a)"
      using s1(4) by (auto simp: parameters_def split: if_splits)
    then show ?thesis using False assms s1(1,2) i1
      by (simp add: toggleSound_def pageInv_def)
  qed
qed

lemma pageInv_statusText [simp]: "pageInv (a\<lparr>statusText := t\<rparr>) = pageInv a"
  by (simp add: pageInv_def)

lemma onClickBegin_spec:
  assumes "pageInv a"
  shows "if initialized (audio a)
         then \<exists>a'. onClickBegin a = Some (False, a') \<and> pageInv a' \<and> initialized (audio a') \<and>
                window a' = window a \<and> scene a' = scene a \<and>
                parameters (audio a') = parameters (audio a)
         else if audioContextAvailable (window a)
         then \<exists>a'. onClickBegin a = Some (True, a') \<and> pageInv a' \<and> initialized (audio a') \<and>
                contextsCreated (window a') = contextsCreated (window a) + 1 \<and> scene a' = scene a \<and>
                parameters (audio a') = parameters (audio a)
         else onClickBegin a = None"
proof -
  from assms have e0: "engineInv (audio a)" and r0: "0 < hardwareSampleRate (window a)"
    and c0: "contextsCreated (window a) = (if initialized (audio a) then 1 else 0)"
    by (simp_all add: pageInv_def)
  show ?thesis
  proof (cases "initialized (audio a)")
    case True
    from toggleSound_spec [OF assms] show ?thesis using True
      by (auto simp: onClickBegin_def)
  next
    case False
    have built_init: "initialized (built (window a) (audio a))"
      and "parameters (built (window a) (audio a)) = parameters (audio a)"
      by (simp_all add: built_def parameters_def)
    with init_spec [OF e0 r0] False
    show ?thesis using assms
      by (auto simp: onClickBegin_def pageInv_def)
  qed
qed

lemma onClickResume_spec:
  assumes "pageInv a"
  shows "\<exists>a'. onClickResume a = Some a' \<and> pageInv a' \<and>
           initialized (audio a') = initialized (audio a) \<and> window a' = window a \<and>
           scene a' = scene a \<and> parameters (audio a') = parameters (audio a)"
  using toggleSound_spec [of "a\<lparr>statusText := ''Playing''\<rparr>"] assms
  by (simp add: onClickResume_def)

lemma onClick_spec:
  assumes "pageInv a"
  shows "if initialized (audio a) \<or> audioContextAvailable (window a)
         then \<exists>a'. onClick a = Some a' \<and> pageInv a' \<and> initialized (audio a') \<and>
                scene a' = scene a \<and> parameters (audio a') = parameters (audio a)
         else onClick a = None"
proof (cases "initialized (audio a)")
  case True
  with onClickBegin_spec [OF assms] show ?thesis
    by (auto simp: onClick_def)
next
  case False
  show ?thesis
  proof (cases "audioContextAvailable (window a)")
    case True
    with False onClickBegin_spec [OF assms] obtain a1
      where a1: "onClickBegin a = Some (True, a1)" "pageInv a1" "initialized (audio a1)"
        "scene a1 = scene a" "parameters (audio a1) = parameters (audio a)"
      by auto
    from onClickResume_spec [OF a1(2)] a1 show ?thesis using True
      by (auto simp: onClick_def)
  next
    case False
    with \<open>\<not> initialized (audio a)\<close> onClickBegin_spec [OF assms] show ?thesis
      by (simp add: onClick_def)
  qed
qed

lemma onMouseUp_spec:
  assumes "pageInv a"
  shows "\<exists>a'. onMouseUp a = Some a' \<and> pageInv a' \<and>
           initialized (audio a') = initialized (audio a) \<and>
           delayTime (audio a') = 0.2 \<and> reverbMix (audio a') = 0.3 \<and>
           \<not> isDragging a' \<and> shapeOffsetX a' = 0 \<and> shapeOffsetY a' = 0 \<and>
           scene a' = setPosition 0 0 (scene a)"
proof -
  from assms have e0: "engineInv (audio a)" by (simp add: pageInv_def)
  from setDelayTime_spec [OF e0, of "0.2"] obtain s1
    where s1: "setDelayTime 0.2 (audio a) = Some s1" "engineInv s1"
      "initialized s1 = initialized (audio a)"
      "if initialized (audio a)
       then \<exists>c. s1 = (audio a)\<lparr>delayTime := max 0 (min 0.5 0.2), audioContext := Some c\<rparr>
       else s1 = audio a"
    by blast
  from setReverbMix_spec [OF s1(2), of "0.3"] obtain s2
    where s2: "setReverbMix 0.3 s1 = Some s2" "engineInv s2"
      "initialized s2 = initialized s1"
      "if initialized s1
       then \<exists>c. s2 = s1\<lparr>reverbMix := max 0 (min 1 0.3), audioContext := Some c\<rparr>
       else s2 = s1"
    by blast
  have i1: "initialized s1 = initialized (audio a)"
    using s1(3) by simp
  have i2: "initialized s2 = initialized (audio a)"
    using s2(3) i1 by simp
  have d1: "delayTime s1 = 0.2"
    using s1(4) e0 by (auto simp: engineInv_def untouched_def split: if_splits)
  have d2: "delayTime s2 = 0.2 \<and> reverbMix s2 = 0.3"
    using s2(4) s1(2) d1 by (auto simp: engineInv_def untouched_def split: if_splits)
  show ?thesis
    using assms s1(1) s2(1) s2(2) i2 d2
    by (simp add: onMouseUp_def Let_def pageInv_def)
qed

lemma changeWaveform_spec:
  assumes "pageInv a"
  shows "\<exists>a'. changeWaveform wave a = Some a' \<and> pageInv a' \<and>
           initialized (audio a') = initialized (audio a) \<and> window a' = window a \<and>
           scene a' = scene a"
proof -
  from assms have e0: "engineInv (audio a)" by (simp add: pageInv_def)
  from setWaveform_spec [OF e0, of wave] obtain s1
    where s1: "setWaveform wave (audio a) = Some s1" "engineInv s1"
      "initialized s1 = initialized (audio a)"
      "if initialized (audio a)
       then \<exists>c n. s1 = (audio a)\<lparr>waveform := wave, audioContext := Some c, oscillator := Some n\<rparr>
       else s1 = (audio a)\<lparr>waveform := wave\<rparr>"
    by blast
  have i1: "initialized s1 = initialized (audio a)"
    using s1(3) by simp
  show ?thesis using assms s1(1,2) i1
    by (simp add: changeWaveform_def pageInv_def)
qed

lemma animate_spec:
  assumes "pageInv a"
  shows "\<exists>a'. animate spectrum a = Some a' \<and> pageInv a' \<and>
           initialized (audio a') = initialized (audio a)"
proof -
  from assms have e0: "engineInv (audio a)" by (simp add: pageInv_def)
  from getAudioLevel_spec [OF e0, of spectrum] obtain level s1
    where s1: "getAudioLevel spectrum (audio a) = Some (level, s1)" "engineInv s1"
      "initialized s1 = initialized (audio a)"
      "if initialized (audio a) then \<exists>array. s1 = (audio a)\<lparr>analyserData := Some array\<rparr>
       else s1 = audio a"
    by blast
  have i1: "initialized s1 = initialized (audio a)"
    using s1(3) by simp
  show ?thesis using assms s1(1,2) i1
    by (simp add: animate_def pageInv_def)
qed

lemma onKeyDown_inv:
  assumes "pageInv a" and "onKeyDown key a = Some a'"
  shows "pageInv a'"
proof -
  define a1 where "a1 =
    (if key = ''1'' then a\<lparr>scene := createGeometry ''icosahedron'' (scene a)\<rparr>
     else if key = ''2'' then a\<lparr>scene := createGeometry ''torus'' (scene a)\<rparr>
     else if key = ''3'' then a\<lparr>scene := createGeometry ''octahedron'' (scene a)\<rparr>
     else if key = ''4'' then a\<lparr>scene := createGeometry ''dodecahedron'' (scene a)\<rparr>
     else a)"
  have p1: "pageInv a1"
    using assms(1) by (simp add: a1_def pageInv_def)
  have k1: "(if key = ''1'' then changeShape ''icosahedron'' a
          else if key = ''2'' then changeShape ''torus'' a
          else if key = ''3'' then changeShape ''octahedron'' a
          else if key = ''4'' then changeShape ''dodecahedron'' a
          else Some a) = Some a1"
    by (simp add: a1_def changeShape_def)
  obtain a2 where a2: "(if key = ''q'' then changeWaveform Sine a1
          else if key = ''w'' then changeWaveform Square a1
          else if key = ''e'' then changeWaveform Sawtooth a1
          else if key = ''r'' then changeWaveform Triangle a1
          else Some a1) = Some a2" and p2: "pageInv a2"
    using changeWaveform_spec [OF p1] p1 by (metis (full_types))
  have "(if key = '' '' then onClick a2 else Some a2) = Some a'"
    using assms(2) k1 a2 by (simp add: onKeyDown_def)
  then show ?thesis
    using p2 onClick_spec [OF p2] by (auto split: if_splits)
qed


lemma handle_inv:
  assumes "pageInv a" and "handle e a = Some a'"
  shows "pageInv a'"
proof (cases e)
  case (MouseMove x y r)
  with assms onMouseMove_spec [OF assms(1), of x y r] show ?thesis by auto
next
  case (Wheel d)
  with assms onWheel_spec [OF assms(1), of d] show ?thesis by auto
next
  case Click
  with assms onClick_spec [OF assms(1)] show ?thesis by (auto split: if_splits)
next
  case (MouseDown x y)
  with assms show ?thesis by (auto simp: onMouseDown_def pageInv_def)
next
  case MouseUp
  with assms onMouseUp_spec [OF assms(1)] show ?thesis by auto
next
  case (TouchStart ts)
  with assms show ?thesis
    by (auto simp: onTouchStart_def onMouseDown_def pageInv_def split: list.splits)
next
  case (TouchMove ts r)
  show ?thesis
  proof (cases ts)
    case Nil
    with TouchMove assms show ?thesis by (simp add: onTouchMove_def)
  next
    case (Cons t rest)
    with TouchMove assms onMouseMove_spec [OF assms(1), of "fst t" "snd t" r]
    show ?thesis by (auto simp: onTouchMove_def)
  qed
next
  case TouchEnd
  with assms onMouseUp_spec [OF assms(1)] show ?thesis by (auto simp: onTouchEnd_def)
next
  case (KeyDown k)
  with assms show ?thesis by (auto intro: onKeyDown_inv)
next
  case (ShapeButton shape)
  with assms show ?thesis by (auto simp: changeShape_def pageInv_def)
next
  case (WaveButton wave)
  with assms changeWaveform_spec [OF assms(1), of wave] show ?thesis by auto
next
  case (Frame spectrum)
  with assms animate_spec [OF assms(1), of spectrum] show ?thesis by auto
qed


lemma onAudio_inv:
  assumes "pageInv a" and "m (audio a) = Some s'" and "engineInv s'"
    and "initialized s' = initialized (audio a)"
  shows "onAudio m a = Some (a\<lparr>audio := s'\<rparr>) \<and> pageInv (a\<lparr>audio := s'\<rparr>)"
  using assms by (simp add: onAudio_def pageInv_def)

lemma perform_inv:
  assumes "pageInv a" and "perform op a = Some a'"
  shows "pageInv a'"
proof -
  from assms(1) have e0: "engineInv (audio a)" and r0: "0 < hardwareSampleRate (window a)"
    by (simp_all add: pageInv_def)
  show ?thesis
  proof (cases op)
    case Init
    have "initialized (built (window a) (audio a))" by (simp add: built_def)
    with Init assms init_spec [OF e0 r0] show ?thesis
      by (auto simp: pageInv_def split: if_splits)
  next
    case Start
    from start_spec [OF e0] obtain s'
      where "start (audio a) = Some s'" and "engineInv s'"
        and "initialized s' = initialized (audio a)"
      by blast
    from onAudio_inv [of a "start" s', OF assms(1) this] Start assms(2) show ?thesis by simp
  next
    case Stop
    from stop_spec [OF e0] obtain s'
      where "stop (audio a) = Some s'" and "engineInv s'"
        and "initialized s' = initialized (audio a)"
      by blast
    from onAudio_inv [of a "stop" s', OF assms(1) this] Stop assms(2) show ?thesis by simp
  next
    case (SetFrequency v)
    from setFrequency_spec [OF e0, of v] obtain s'
      where "setFrequency v (audio a) = Some s'" and "engineInv s'"
        and "initialized s' = initialized (audio a)"
      by blast
    from onAudio_inv [of a "setFrequency v" s', OF assms(1) this] SetFrequency assms(2) show ?thesis by simp
  next
    case (SetFilterFrequency v)
    from setFilterFrequency_spec [OF e0, of v] obtain s'
      where "setFilterFrequency v (audio a) = Some s'" and "engineInv s'"
        and "initialized s' = initialized (audio a)"
      by blast
    from onAudio_inv [of a "setFilterFrequency v" s', OF assms(1) this] SetFilterFrequency assms(2) show ?thesis by simp
  next
    case (SetFilterQ v)
    from setFilterQ_spec [OF e0, of v] obtain s'
      where "setFilterQ v (audio a) = Some s'" and "engineInv s'"
        and "initialized s' = initialized (audio a)"
      by blast
    from onAudio_inv [of a "setFilterQ v" s', OF assms(1) this] SetFilterQ assms(2) show ?thesis by simp
  next
    case (SetReverbMix v)
    from setReverbMix_spec [OF e0, of v] obtain s'
      where "setReverbMix v (audio a) = Some s'" and "engineInv s'"
        and "initialized s' = initialized (audio a)"
      by blast
    from onAudio_inv [of a "setReverbMix v" s', OF assms(1) this] SetReverbMix assms(2) show ?thesis by simp
  next
    case (SetDelayTime v)
    from setDelayTime_spec [OF e0, of v] obtain s'
      where "setDelayTime v (audio a) = Some s'" and "engineInv s'"
        and "initialized s' = initialized (audio a)"
      by blast
    from onAudio_inv [of a "setDelayTime v" s', OF assms(1) this] SetDelayTime assms(2) show ?thesis by simp
  next
    case (SetWaveform w)
    from setWaveform_spec [OF e0, of w] obtain s'
      where "setWaveform w (audio a) = Some s'" and "engineInv s'"
        and "initialized s' = initialized (audio a)"
      by blast
    from onAudio_inv [of a "setWaveform w" s', OF assms(1) this] SetWaveform assms(2) show ?thesis by simp
  next
    case (SetFrequencyNormalized v)
    from setFrequencyNormalized_spec [OF e0, of v] obtain s'
      where "setFrequencyNormalized v (audio a) = Some s'" and "engineInv s'"
        and "initialized s' = initialized (audio a)"
      by blast
    from onAudio_inv [of a "setFrequencyNormalized v" s', OF assms(1) this] SetFrequencyNormalized assms(2) show ?thesis by simp
  next
    case (GetAudioLevel spectrum)
    from getAudioLevel_spec [OF e0, of spectrum] obtain level s'
      where "getAudioLevel spectrum (audio a) = Some (level, s')" and "engineInv s'"
        and "initialized s' = initialized (audio a)"
      by blast
    with GetAudioLevel assms show ?thesis
      by (auto simp: onAudio_def pageInv_def)
  next
    case (SetAudioLevel v)
    with assms show ?thesis by (auto simp: pageInv_def)
  next
    case (SetRotation x y)
    with assms show ?thesis by (auto simp: pageInv_def)
  next
    case (SetScale v)
    with assms show ?thesis by (auto simp: pageInv_def)
  next
    case (SetPosition x y)
    with assms show ?thesis by (auto simp: pageInv_def)
  next
    case (CreateGeometry kind)
    with assms show ?thesis by (auto simp: pageInv_def)
  qed
qed


lemma refers_elapse [simp]: "refers P r (c\<lparr>currentTime := t\<rparr>) = refers P r c"
  by (simp add: refers_def cong: option.case_cong)

lemma graphIn_elapse [simp]: "graphIn (c\<lparr>currentTime := t\<rparr>) s = graphIn c s"
  by (simp add: graphIn_def)

lemma graphIn_audioContext [simp]: "graphIn c (s\<lparr>audioContext := x\<rparr>) = graphIn c s"
  by (simp add: graphIn_def)

lemma elapse_inv:
  assumes "pageInv a"
  shows "pageInv (elapse dt a)"
proof -
  have "graphReady (audio (elapse dt a)) = graphReady (audio a)"
    by (cases "audioContext (audio a)") (simp_all add: elapse_def graphReady_def)
  moreover have "untouched (audio (elapse dt a)) = untouched (audio a)"
    and "paramsInRange (audio (elapse dt a)) = paramsInRange (audio a)"
    and "initialized (audio (elapse dt a)) = initialized (audio a)"
    and "scene (elapse dt a) = scene a" and "window (elapse dt a) = window a"
    by (simp_all add: elapse_def untouched_def paramsInRange_def)
  ultimately show ?thesis
    using assms by (simp add: pageInv_def engineInv_def)
qed

lemma step_inv:
  assumes "pageInv a" and "step x a = Some a'"
  shows "pageInv a'"
  using assms by (cases x) (auto intro: handle_inv perform_inv elapse_inv)

lemma newInteractionController_inv:
  assumes "contextsCreated b = 0" and "0 < hardwareSampleRate b"
  shows "pageInv (newInteractionController b st)"
  using assms
  by (simp add: pageInv_def newInteractionController_def newAudioSynthesizer_def newScene3D_def
      engineInv_def paramsInRange_def untouched_def createGeometry_def hasMesh_def)

lemma reachable_inv:
  assumes "reachable a"
  shows "pageInv a"
  using assms by induction (auto intro: newInteractionController_inv step_inv)

section \<open>Facts about the concrete page\<close>

lemma reachable_examplePage: "reachable examplePage"
  unfolding examplePage_def
  by (rule reachable_start) (simp_all add: exampleBrowser_def)

lemma onClick_examplePage: "onClick examplePage = Some startedPage \<and> initialized (audio startedPage)"
proof -
  have "pageInv examplePage"
    using reachable_examplePage by (rule reachable_inv)
  from onClick_spec [OF this] show ?thesis
    by (auto simp: startedPage_def examplePage_def newInteractionController_def exampleBrowser_def)
qed

lemma reachable_startedPage: "reachable startedPage"
  using reachable_examplePage
proof (rule reachable_step)
  show "valid (Input Click)" by simp
  show "step (Input Click) examplePage = Some startedPage"
    using onClick_examplePage by simp
qed

lemma initialized_startedPage: "initialized (audio startedPage)"
  using onClick_examplePage by simp

lemma uninitialized_examplePage: "\<not> initialized (audio examplePage)"
  by (simp add: examplePage_def newInteractionController_def newAudioSynthesizer_def)

text \<open>
  What a move does to the drag state and the mesh, and that a click leaves the drag
  flag alone.
\<close>

lemma mesh_setters:
  "mesh (setPosition x y sc) = map_option (\<lambda>m. m\<lparr>positionX := x, positionY := y\<rparr>) (mesh sc)"
  "mesh (setRotation x y sc) = mesh sc"
  by (simp_all add: setPosition_def setRotation_def split: option.splits)

lemma onMouseMove_drag:
  assumes "onMouseMove x y r a = Some a'"
  shows "isDragging a' = isDragging a \<and>
         (isDragging a \<longrightarrow>
            shapeOffsetX a' = (x - dragStartX a) / rectWidth r * 4 \<and>
            shapeOffsetY a' = - ((y - dragStartY a) / rectHeight r) * 4 \<and>
            mesh (scene a')
              = map_option (\<lambda>m. m\<lparr>positionX := shapeOffsetX a', positionY := shapeOffsetY a'\<rparr>)
                  (mesh (scene a)))"
proof (cases "isDragging a")
  case False
  with assms show ?thesis
    by (auto simp: onMouseMove_def Let_def Option.bind_eq_Some_conv)
next
  case True
  with assms show ?thesis
    by (auto simp: onMouseMove_def Let_def Option.bind_eq_Some_conv mesh_setters)
qed

lemma onClick_keeps_drag:
  assumes "onClick a = Some a'"
  shows "isDragging a' = isDragging a"
  using assms
  by (auto simp: onClick_def onClickBegin_def onClickResume_def toggleSound_def
      Option.bind_eq_Some_conv split: if_splits prod.splits)

lemma startedPage_not_dragging: "\<not> isDragging startedPage"
proof -
  have "\<not> isDragging examplePage"
    by (simp add: examplePage_def newInteractionController_def)
  with onClick_keeps_drag [of examplePage startedPage] onClick_examplePage
  show ?thesis by simp
qed

section \<open>Running several actions\<close>

lemma run_append:
  "run (xs @ ys) a = (case run xs a of None \<Rightarrow> None | Some a' \<Rightarrow> run ys a')"
  by (induction xs arbitrary: a) (auto split: option.splits)

lemma run_reachable:
  assumes "reachable a" and "list_all valid xs" and "run xs a = Some a'"
  shows "reachable a'"
  using assms
proof (induction xs arbitrary: a)
  case Nil
  then show ?case by simp
next
  case (Cons x xs)
  then show ?case
    by (auto split: option.splits intro: reachable_step)
qed

lemma init_unavailable:
  assumes "\<not> initialized s" and "\<not> (audioContextAvailable b \<and> 0 < hardwareSampleRate b)"
  shows "init b s = None"
  using assms
  by (auto simp add: init_def newAudioContext_def create_def onContext_def updNode_def
      createOscillator_def createGain_def createBiquadFilter_def createDelay_def
      createConvolver_def createAnalyser_def createNode_def
      generateReverbImpulse_def setValue_def Let_def)

lemma foldl_sum_bytes:
  "foldl (\<lambda>sum x. sum + real (unat x)) acc xs = acc + (\<Sum>x\<leftarrow>xs. real (unat x))"
  by (induction xs arbitrary: acc) simp_all

lemma sum_bytes_bound:
  fixes xs :: "8 word list"
  shows "(\<Sum>x\<leftarrow>xs. real (unat x)) \<le> 255 * real (length xs)"
proof (induction xs)
  case Nil
  then show ?case by simp
next
  case (Cons x xs)
  have "unat x < 2 ^ 8" using unsigned_less [of x] by simp
  then have "unat x \<le> 255" by simp
  then have "real (unat x) \<le> real 255" by (simp only: of_nat_le_iff)
  then have "real (unat x) \<le> 255" by (simp only: of_nat_numeral)
  moreover have "(\<Sum>y\<leftarrow>x # xs. real (unat y)) = real (unat x) + (\<Sum>y\<leftarrow>xs. real (unat y))"
    by (simp only: list.map sum_list.Cons)
  moreover have "real (length (x # xs)) = real (length xs) + 1"
    by simp
  ultimately show ?case using Cons by linarith
qed

section \<open>No step throws, but a first activation without an audio context\<close>

lemma onKeyDown_total:
  assumes "pageInv a" and "initialized (audio a) \<or> audioContextAvailable (window a)"
  shows "\<exists>a'. onKeyDown key a = Some a'"
proof -
  define a1 where "a1 =
    (if key = ''1'' then a\<lparr>scene := createGeometry ''icosahedron'' (scene a)\<rparr>
     else if key = ''2'' then a\<lparr>scene := createGeometry ''torus'' (scene a)\<rparr>
     else if key = ''3'' then a\<lparr>scene := createGeometry ''octahedron'' (scene a)\<rparr>
     else if key = ''4'' then a\<lparr>scene := createGeometry ''dodecahedron'' (scene a)\<rparr>
     else a)"
  have p1: "pageInv a1" and w1: "initialized (audio a1) \<or> audioContextAvailable (window a1)"
    using assms by (simp_all add: a1_def pageInv_def)
  have k1: "(if key = ''1'' then changeShape ''icosahedron'' a
          else if key = ''2'' then changeShape ''torus'' a
          else if key = ''3'' then changeShape ''octahedron'' a
          else if key = ''4'' then changeShape ''dodecahedron'' a
          else Some a) = Some a1"
    by (simp add: a1_def changeShape_def)
  have cw: "\<exists>a2. changeWaveform wave a1 = Some a2 \<and> pageInv a2
      \<and> (initialized (audio a2) \<or> audioContextAvailable (window a2))" for wave
  proof -
    from changeWaveform_spec [OF p1, of wave] obtain a' where
      "changeWaveform wave a1 = Some a'" "pageInv a'"
      "initialized (audio a') = initialized (audio a1)" "window a' = window a1"
      by blast
    with w1 show ?thesis by simp
  qed
  have "\<exists>a2. (if key = ''q'' then changeWaveform Sine a1
          else if key = ''w'' then changeWaveform Square a1
          else if key = ''e'' then changeWaveform Sawtooth a1
          else if key = ''r'' then changeWaveform Triangle a1
          else Some a1) = Some a2 \<and> pageInv a2
      \<and> (initialized (audio a2) \<or> audioContextAvailable (window a2))"
    using cw p1 w1 by simp
  then obtain a2 where a2: "(if key = ''q'' then changeWaveform Sine a1
          else if key = ''w'' then changeWaveform Square a1
          else if key = ''e'' then changeWaveform Sawtooth a1
          else if key = ''r'' then changeWaveform Triangle a1
          else Some a1) = Some a2" and p2: "pageInv a2"
      and w2: "initialized (audio a2) \<or> audioContextAvailable (window a2)"
    by blast
  from onClick_spec [OF p2] w2 obtain a3 where "onClick a2 = Some a3"
    by auto
  then have "\<exists>a'. (if key = '' '' then onClick a2 else Some a2) = Some a'"
    by simp
  then show ?thesis
    using k1 a2 by (simp add: onKeyDown_def)
qed

lemma handle_total:
  assumes "pageInv a" and "initialized (audio a) \<or> audioContextAvailable (window a)"
  shows "\<exists>a'. handle e a = Some a'"
proof (cases e)
  case (MouseMove x y r)
  with onMouseMove_spec [OF assms(1), of x y r] show ?thesis by auto
next
  case (Wheel d)
  with onWheel_spec [OF assms(1), of d] show ?thesis by auto
next
  case Click
  with assms(2) onClick_spec [OF assms(1)] show ?thesis by auto
next
  case (MouseDown x y)
  then show ?thesis by (simp add: onMouseDown_def)
next
  case MouseUp
  with onMouseUp_spec [OF assms(1)] show ?thesis by auto
next
  case (TouchStart ts)
  then show ?thesis
    by (simp add: onTouchStart_def onMouseDown_def split: list.splits)
next
  case (TouchMove ts r)
  show ?thesis
  proof (cases ts)
    case Nil
    with TouchMove show ?thesis by (simp add: onTouchMove_def)
  next
    case (Cons t rest)
    with TouchMove onMouseMove_spec [OF assms(1), of "fst t" "snd t" r]
    show ?thesis by (auto simp: onTouchMove_def)
  qed
next
  case TouchEnd
  with onMouseUp_spec [OF assms(1)] show ?thesis by (auto simp: onTouchEnd_def)
next
  case (KeyDown k)
  with onKeyDown_total [OF assms, of k] show ?thesis by simp
next
  case (ShapeButton shape)
  then show ?thesis by (simp add: changeShape_def)
next
  case (WaveButton wave)
  with changeWaveform_spec [OF assms(1), of wave] show ?thesis by auto
next
  case (Frame spectrum)
  with animate_spec [OF assms(1), of spectrum] show ?thesis by auto
qed

lemma perform_total:
  assumes "pageInv a" and "initialized (audio a) \<or> audioContextAvailable (window a)"
  shows "\<exists>a'. perform op a = Some a'"
proof -
  from assms(1) have e0: "engineInv (audio a)" and r0: "0 < hardwareSampleRate (window a)"
    by (simp_all add: pageInv_def)
  show ?thesis
  proof (cases op)
    case Init
    with assms(2) init_spec [OF e0 r0] show ?thesis by (auto split: if_splits)
  next
    case Start
    with start_spec [OF e0] show ?thesis by (auto simp: onAudio_def)
  next
    case Stop
    with stop_spec [OF e0] show ?thesis by (auto simp: onAudio_def)
  next
    case (SetFrequency v)
    from setFrequency_spec [OF e0, of v] obtain s' where "setFrequency v (audio a) = Some s'"
      by blast
    with SetFrequency show ?thesis by (simp add: onAudio_def)
  next
    case (SetFilterFrequency v)
    from setFilterFrequency_spec [OF e0, of v] obtain s'
      where "setFilterFrequency v (audio a) = Some s'"
      by blast
    with SetFilterFrequency show ?thesis by (simp add: onAudio_def)
  next
    case (SetFilterQ v)
    from setFilterQ_spec [OF e0, of v] obtain s' where "setFilterQ v (audio a) = Some s'"
      by blast
    with SetFilterQ show ?thesis by (simp add: onAudio_def)
  next
    case (SetReverbMix v)
    from setReverbMix_spec [OF e0, of v] obtain s' where "setReverbMix v (audio a) = Some s'"
      by blast
    with SetReverbMix show ?thesis by (simp add: onAudio_def)
  next
    case (SetDelayTime v)
    from setDelayTime_spec [OF e0, of v] obtain s' where "setDelayTime v (audio a) = Some s'"
      by blast
    with SetDelayTime show ?thesis by (simp add: onAudio_def)
  next
    case (SetWaveform w)
    from setWaveform_spec [OF e0, of w] obtain s' where "setWaveform w (audio a) = Some s'"
      by blast
    with SetWaveform show ?thesis by (simp add: onAudio_def)
  next
    case (GetAudioLevel spectrum)
    from getAudioLevel_spec [OF e0, of spectrum] obtain level s'
      where "getAudioLevel spectrum (audio a) = Some (level, s')"
      by blast
    with GetAudioLevel show ?thesis by (simp add: onAudio_def)
  next
    case (SetFrequencyNormalized v)
    from setFrequencyNormalized_spec [OF e0, of v] obtain s'
      where "setFrequencyNormalized v (audio a) = Some s'"
      by blast
    with SetFrequencyNormalized show ?thesis by (simp add: onAudio_def)
  next
    case (SetAudioLevel v)
    then show ?thesis by simp
  next
    case (SetRotation x y)
    then show ?thesis by simp
  next
    case (SetScale v)
    then show ?thesis by simp
  next
    case (SetPosition x y)
    then show ?thesis by simp
  next
    case (CreateGeometry kind)
    then show ?thesis by simp
  qed
qed

lemma step_total:
  assumes "reachable a" and "initialized (audio a) \<or> audioContextAvailable (window a)"
  shows "\<exists>a'. step x a = Some a'"
proof -
  from assms(1) have "pageInv a" by (rule reachable_inv)
  with assms(2) show ?thesis
    by (cases x) (simp_all add: handle_total perform_total)
qed

section \<open>The claims\<close>

text \<open>
  C1. After initialization, a pointer-move event whose normalized position
  \<open>(px, py)\<close> lies in the unit square sets \<open>filterFrequency\<close> to exactly
  \<open>200 + 4800 * px\<close>, which lies in [200, 5000], and \<open>filterQ\<close> to exactly
  \<open>1 + 19 * py\<close>, which lies in [1, 20]; a touch-move does the same with its first
  touch point.
\<close>

theorem pointer_move_sets_filter:
  assumes "reachable a" and "initialized (audio a)"
    and "0 < rectWidth r" and "0 < rectHeight r"
    and "px = (clientX - rectLeft r) / rectWidth r" and "0 \<le> px" and "px \<le> 1"
    and "py = (clientY - rectTop r) / rectHeight r" and "0 \<le> py" and "py \<le> 1"
  shows "\<exists>a'. handle (MouseMove clientX clientY r) a = Some a' \<and>
           handle (TouchMove ((clientX, clientY) # others) r) a = Some a' \<and>
           filterFrequency (audio a') = 200 + 4800 * px \<and>
           200 \<le> filterFrequency (audio a') \<and> filterFrequency (audio a') \<le> 5000 \<and>
           filterQ (audio a') = 1 + 19 * py \<and>
           1 \<le> filterQ (audio a') \<and> filterQ (audio a') \<le> 20"
proof -
  from assms(1) have "pageInv a" by (rule reachable_inv)
  from onMouseMove_spec [OF this, of clientX clientY r] assms(2) obtain a'
    where a': "onMouseMove clientX clientY r a = Some a'"
      and "mouseX a' = (clientX - rectLeft r) / rectWidth r"
      and "mouseY a' = (clientY - rectTop r) / rectHeight r"
      and f: "filterFrequency (audio a') = max 200 (min 5000 (200 + mouseX a' * 4800))"
        "filterQ (audio a') = max 1 (min 20 (1 + mouseY a' * 19))"
    by blast
  then have mx: "mouseX a' = px" and my: "mouseY a' = py"
    using assms(5,8) by simp_all
  have "filterFrequency (audio a') = 200 + 4800 * px"
    using f(1) assms(6,7) unfolding mx by simp
  moreover have "filterQ (audio a') = 1 + 19 * py"
    using f(2) assms(9,10) unfolding my by simp
  ultimately show ?thesis
    using a' assms(6,7,9,10) by (simp add: onTouchMove_def)
qed

theorem pointer_move_sets_filter_witness:
  "reachable startedPage \<and> initialized (audio startedPage) \<and>
   0 < rectWidth exampleRect \<and> 0 < rectHeight exampleRect \<and>
   (\<exists>a'. handle (MouseMove 200 450 exampleRect) startedPage = Some a' \<and>
         handle (TouchMove [(200, 450), (7, 9)] exampleRect) startedPage = Some a' \<and>
         filterFrequency (audio a') = 1400 \<and> filterQ (audio a') = 15.25)"
  using pointer_move_sets_filter [of startedPage exampleRect "1 / 4" 200 "3 / 4" 450 "[(7, 9)]"]
    reachable_startedPage initialized_startedPage
  by (simp add: exampleRect_def) blast




lemma run_wheels:
  assumes "pageInv a"
  shows "\<exists>a'. run (map (\<lambda>d. Input (Wheel d)) deltas) a = Some a' \<and> pageInv a'"
  using assms
proof (induction deltas arbitrary: a)
  case Nil
  then show ?case by simp
next
  case (Cons d ds)
  from onWheel_spec [OF Cons.prems, of d] obtain a1
    where "onWheel d a = Some a1" and "pageInv a1"
    by blast
  with Cons.IH [of a1] show ?case by simp
qed

text \<open>
  C3. In every state the page reaches from its initial state, by input events, direct
  calls of the engine's and the scene's methods and the passing of time, each audio
  parameter lies in its range and the scale lies in [0.5, 3]; from such a state, any
  number of wheel events is handled and leaves the scale in [0.5, 3].
\<close>

theorem parameters_stay_in_range:
  assumes "reachable a"
  shows "50 \<le> currentFrequency (audio a) \<and> currentFrequency (audio a) \<le> 2000 \<and>
         200 \<le> filterFrequency (audio a) \<and> filterFrequency (audio a) \<le> 5000 \<and>
         1 \<le> filterQ (audio a) \<and> filterQ (audio a) \<le> 20 \<and>
         0 \<le> reverbMix (audio a) \<and> reverbMix (audio a) \<le> 1 \<and>
         0 \<le> delayTime (audio a) \<and> delayTime (audio a) \<le> 0.5 \<and>
         0.5 \<le> currentScale (scene a) \<and> currentScale (scene a) \<le> 3 \<and>
         (\<exists>a'. run (map (\<lambda>d. Input (Wheel d)) deltas) a = Some a' \<and>
               0.5 \<le> currentScale (scene a') \<and> currentScale (scene a') \<le> 3)"
proof -
  from assms have p: "pageInv a" by (rule reachable_inv)
  from run_wheels [OF p, of deltas] obtain a'
    where "run (map (\<lambda>d. Input (Wheel d)) deltas) a = Some a'" and "pageInv a'"
    by blast
  then have "\<exists>a'. run (map (\<lambda>d. Input (Wheel d)) deltas) a = Some a' \<and>
               0.5 \<le> currentScale (scene a') \<and> currentScale (scene a') \<le> 3"
    by (auto simp: pageInv_def)
  with p show ?thesis
    by (simp add: pageInv_def engineInv_def paramsInRange_def)
qed

theorem parameters_stay_in_range_witness:
  "reachable startedPage \<and>
   50 \<le> currentFrequency (audio startedPage) \<and> currentFrequency (audio startedPage) \<le> 2000 \<and>
   200 \<le> filterFrequency (audio startedPage) \<and> filterFrequency (audio startedPage) \<le> 5000 \<and>
   1 \<le> filterQ (audio startedPage) \<and> filterQ (audio startedPage) \<le> 20 \<and>
   0 \<le> reverbMix (audio startedPage) \<and> reverbMix (audio startedPage) \<le> 1 \<and>
   0 \<le> delayTime (audio startedPage) \<and> delayTime (audio startedPage) \<le> 0.5 \<and>
   0.5 \<le> currentScale (scene startedPage) \<and> currentScale (scene startedPage) \<le> 3 \<and>
   (\<exists>a'. run (map (\<lambda>d. Input (Wheel d)) (replicate 40 (- 120))) startedPage = Some a' \<and>
         0.5 \<le> currentScale (scene a') \<and> currentScale (scene a') \<le> 3)"
  using parameters_stay_in_range [of startedPage "replicate 40 (- 120)"] reachable_startedPage
  by simp

lemma run_moves:
  assumes "pageInv a"
  shows "\<exists>a'. run (map (\<lambda>(cx, cy, r). Input (MouseMove cx cy r)) moves) a = Some a' \<and> pageInv a'"
  using assms
proof (induction moves arbitrary: a)
  case Nil
  then show ?case by simp
next
  case (Cons m ms)
  obtain cx cy r where m: "m = (cx, cy, r)" by (cases m) auto
  from onMouseMove_spec [OF Cons.prems, of cx cy r] obtain a1
    where "onMouseMove cx cy r a = Some a1" and "pageInv a1"
    by blast
  with Cons.IH [of a1] m show ?case by simp
qed

text \<open>
  C4. A drag session is a mouse-down, any number of mouse-moves and a mouse-up. From
  every state the page reaches, the whole session is handled, and after its mouse-up
  \<open>delayTime\<close> is exactly 0.2 and \<open>reverbMix\<close> exactly 0.3, whatever the moves
  were and whatever they set.
\<close>

theorem drag_end_restores_effects:
  assumes "reachable a"
    and "\<forall>m \<in> set moves. 0 < rectWidth (snd (snd m)) \<and> 0 < rectHeight (snd (snd m))"
  shows "\<exists>a'. run (Input (MouseDown x y)
                    # map (\<lambda>(cx, cy, r). Input (MouseMove cx cy r)) moves
                    @ [Input MouseUp]) a = Some a' \<and>
              delayTime (audio a') = 0.2 \<and> reverbMix (audio a') = 0.3"
proof -
  from assms(1) have p: "pageInv a" by (rule reachable_inv)
  define a0 where "a0 = a\<lparr>isDragging := True, dragStartX := x, dragStartY := y\<rparr>"
  have p0: "pageInv a0" using p by (simp add: a0_def pageInv_def)
  from run_moves [OF p0, of moves] obtain a1
    where a1: "run (map (\<lambda>(cx, cy, r). Input (MouseMove cx cy r)) moves) a0 = Some a1"
      and p1: "pageInv a1"
    by blast
  from onMouseUp_spec [OF p1] obtain a'
    where a': "onMouseUp a1 = Some a'" "delayTime (audio a') = 0.2" "reverbMix (audio a') = 0.3"
    by blast
  have "run (Input (MouseDown x y)
              # map (\<lambda>(cx, cy, r). Input (MouseMove cx cy r)) moves @ [Input MouseUp]) a = Some a'"
    using a1 a'(1) by (simp add: onMouseDown_def a0_def run_append)
  with a'(2,3) show ?thesis by blast
qed

theorem drag_end_restores_effects_witness:
  "reachable startedPage \<and>
   0 < rectWidth exampleRect \<and> 0 < rectHeight exampleRect \<and>
   (\<exists>a1. run [Input (MouseDown 400 300), Input (MouseMove 320 300 exampleRect)] startedPage = Some a1 \<and>
         delayTime (audio a1) = 0.05 \<and> reverbMix (audio a1) = 0) \<and>
   (\<exists>a'. run [Input (MouseDown 400 300), Input (MouseMove 320 300 exampleRect),
              Input (MouseMove 1200 900 exampleRect), Input MouseUp] startedPage = Some a' \<and>
         delayTime (audio a') = 0.2 \<and> reverbMix (audio a') = 0.3)"
proof -
  define a0 where "a0 = startedPage\<lparr>isDragging := True, dragStartX := 400, dragStartY := 300\<rparr>"
  have p: "pageInv startedPage" using reachable_startedPage by (rule reachable_inv)
  then have p0: "pageInv a0" by (simp add: a0_def pageInv_def)
  have i0: "initialized (audio a0)" using initialized_startedPage by (simp add: a0_def)
  from onMouseMove_spec [OF p0, of 320 300 exampleRect] i0 obtain a1
    where "onMouseMove 320 300 exampleRect a0 = Some a1"
      and "delayTime (audio a1) = 0.05" and "reverbMix (audio a1) = 0"
    by (auto simp: a0_def exampleRect_def)
  then have "\<exists>a1. run [Input (MouseDown 400 300), Input (MouseMove 320 300 exampleRect)] startedPage = Some a1 \<and>
         delayTime (audio a1) = 0.05 \<and> reverbMix (audio a1) = 0"
    by (simp add: onMouseDown_def a0_def)
  then show ?thesis
    using drag_end_restores_effects
      [of startedPage "[(320, 300, exampleRect), (1200, 900, exampleRect)]" 400 300]
      reachable_startedPage
    by (simp add: exampleRect_def)
qed

text \<open>
  C10. From every state the page reaches, a mouse-up and a touch-end are handled alike:
  whether or not a drag is active, they clear the drag flag, put \<open>delayTime\<close> at 0.2
  and \<open>reverbMix\<close> at 0.3, and put the shape's offset and the mesh at the origin. So
  does a plain click: a mouse-down and the mouse-up right after it, with no move in
  between, and the click event that follows changes none of it.
\<close>

theorem release_always_resets:
  assumes "reachable a"
  shows "(\<exists>a' m. handle MouseUp a = Some a' \<and> handle TouchEnd a = Some a' \<and>
            \<not> isDragging a' \<and>
            delayTime (audio a') = 0.2 \<and> reverbMix (audio a') = 0.3 \<and>
            shapeOffsetX a' = 0 \<and> shapeOffsetY a' = 0 \<and>
            mesh (scene a') = Some m \<and> positionX m = 0 \<and> positionY m = 0) \<and>
         (\<exists>a' m. run [Input (MouseDown x y), Input MouseUp] a = Some a' \<and>
            \<not> isDragging a' \<and>
            delayTime (audio a') = 0.2 \<and> reverbMix (audio a') = 0.3 \<and>
            shapeOffsetX a' = 0 \<and> shapeOffsetY a' = 0 \<and>
            mesh (scene a') = Some m \<and> positionX m = 0 \<and> positionY m = 0 \<and>
            (initialized (audio a) \<or> audioContextAvailable (window a) \<longrightarrow>
               (\<exists>a''. handle Click a' = Some a'' \<and>
                  delayTime (audio a'') = 0.2 \<and> reverbMix (audio a'') = 0.3 \<and>
                  scene a'' = scene a')))"
proof -
  have reset: "\<exists>a' m. onMouseUp b = Some a' \<and> pageInv a' \<and>
            initialized (audio a') = initialized (audio b) \<and> window a' = window b \<and>
            \<not> isDragging a' \<and>
            delayTime (audio a') = 0.2 \<and> reverbMix (audio a') = 0.3 \<and>
            shapeOffsetX a' = 0 \<and> shapeOffsetY a' = 0 \<and>
            mesh (scene a') = Some m \<and> positionX m = 0 \<and> positionY m = 0"
    if "pageInv b" for b
  proof -
    from that obtain m0 where m0: "mesh (scene b) = Some m0"
      by (auto simp: pageInv_def hasMesh_def)
    from onMouseUp_spec [OF that] obtain a'
      where a': "onMouseUp b = Some a'" "pageInv a'"
        "initialized (audio a') = initialized (audio b)"
        "\<not> isDragging a'"
        "delayTime (audio a') = 0.2" "reverbMix (audio a') = 0.3"
        "shapeOffsetX a' = 0" "shapeOffsetY a' = 0" "scene a' = setPosition 0 0 (scene b)"
      by blast
    have "mesh (scene a') = Some (m0\<lparr>positionX := 0, positionY := 0\<rparr>)"
      using a'(9) m0 by (simp add: setPosition_def)
    moreover have "window a' = window b"
      using a'(1) by (auto simp: onMouseUp_def Let_def Option.bind_eq_Some_conv)
    ultimately show ?thesis using a' by simp
  qed
  from assms have p: "pageInv a" by (rule reachable_inv)
  define a0 where "a0 = a\<lparr>isDragging := True, dragStartX := x, dragStartY := y\<rparr>"
  have p0: "pageInv a0" using p by (simp add: a0_def pageInv_def)
  from reset [OF p] have first: "\<exists>a' m. handle MouseUp a = Some a' \<and> handle TouchEnd a = Some a' \<and>
            \<not> isDragging a' \<and>
            delayTime (audio a') = 0.2 \<and> reverbMix (audio a') = 0.3 \<and>
            shapeOffsetX a' = 0 \<and> shapeOffsetY a' = 0 \<and>
            mesh (scene a') = Some m \<and> positionX m = 0 \<and> positionY m = 0"
    by (simp add: onTouchEnd_def) blast
  from reset [OF p0] obtain a' m
    where a': "onMouseUp a0 = Some a'" "pageInv a'"
      "initialized (audio a') = initialized (audio a0)" "window a' = window a0"
      "\<not> isDragging a'"
      "delayTime (audio a') = 0.2" "reverbMix (audio a') = 0.3"
      "shapeOffsetX a' = 0" "shapeOffsetY a' = 0"
      "mesh (scene a') = Some m" "positionX m = 0" "positionY m = 0"
    by blast
  have r: "run [Input (MouseDown x y), Input MouseUp] a = Some a'"
    using a'(1) by (simp add: onMouseDown_def a0_def)
  have click: "\<exists>a''. handle Click a' = Some a'' \<and>
                  delayTime (audio a'') = 0.2 \<and> reverbMix (audio a'') = 0.3 \<and>
                  scene a'' = scene a'"
    if "initialized (audio a) \<or> audioContextAvailable (window a)"
  proof -
    from that a'(3,4) have "initialized (audio a') \<or> audioContextAvailable (window a')"
      by (simp add: a0_def)
    with onClick_spec [OF a'(2)] obtain a''
      where a'': "onClick a' = Some a''" "scene a'' = scene a'"
        "parameters (audio a'') = parameters (audio a')"
      by auto
    with a'' a'(6,7) show ?thesis by (simp add: parameters_def)
  qed
  from r a' click have "\<exists>a' m. run [Input (MouseDown x y), Input MouseUp] a = Some a' \<and>
            \<not> isDragging a' \<and>
            delayTime (audio a') = 0.2 \<and> reverbMix (audio a') = 0.3 \<and>
            shapeOffsetX a' = 0 \<and> shapeOffsetY a' = 0 \<and>
            mesh (scene a') = Some m \<and> positionX m = 0 \<and> positionY m = 0 \<and>
            (initialized (audio a) \<or> audioContextAvailable (window a) \<longrightarrow>
               (\<exists>a''. handle Click a' = Some a'' \<and>
                  delayTime (audio a'') = 0.2 \<and> reverbMix (audio a'') = 0.3 \<and>
                  scene a'' = scene a'))"
    by blast
  with first show ?thesis by blast
qed

theorem release_always_resets_witness:
  "reachable examplePage \<and> reachable startedPage \<and>
   (\<exists>a' m. handle MouseUp startedPage = Some a' \<and> handle TouchEnd startedPage = Some a' \<and>
      \<not> isDragging a' \<and> delayTime (audio a') = 0.2 \<and> reverbMix (audio a') = 0.3 \<and>
      shapeOffsetX a' = 0 \<and> shapeOffsetY a' = 0 \<and>
      mesh (scene a') = Some m \<and> positionX m = 0 \<and> positionY m = 0) \<and>
   (\<exists>a' a'' m. run [Input (MouseDown 10 20), Input MouseUp] examplePage = Some a' \<and>
      \<not> isDragging a' \<and> delayTime (audio a') = 0.2 \<and> reverbMix (audio a') = 0.3 \<and>
      mesh (scene a') = Some m \<and> positionX m = 0 \<and> positionY m = 0 \<and>
      handle Click a' = Some a'' \<and> delayTime (audio a'') = 0.2 \<and> reverbMix (audio a'') = 0.3) \<and>
   (\<exists>d m0 a' m.
      run [Input (MouseDown 0 0), Input (MouseMove 400 300 exampleRect)] startedPage = Some d \<and>
      reachable d \<and> isDragging d \<and>
      delayTime (audio d) = 0.25 \<and> reverbMix (audio d) = 0.5 \<and>
      shapeOffsetX d = 2 \<and> shapeOffsetY d = - 2 \<and>
      mesh (scene d) = Some m0 \<and> positionX m0 = 2 \<and> positionY m0 = - 2 \<and>
      handle MouseUp d = Some a' \<and> handle TouchEnd d = Some a' \<and>
      \<not> isDragging a' \<and> delayTime (audio a') = 0.2 \<and> reverbMix (audio a') = 0.3 \<and>
      shapeOffsetX a' = 0 \<and> shapeOffsetY a' = 0 \<and>
      mesh (scene a') = Some m \<and> positionX m = 0 \<and> positionY m = 0) \<and>
   (\<exists>d m0 a' m.
      run [Call (SetDelayTime 0.45), Call (SetReverbMix 0.9), Call (SetPosition 1 2)] startedPage
        = Some d \<and>
      reachable d \<and> \<not> isDragging d \<and>
      delayTime (audio d) = 0.45 \<and> reverbMix (audio d) = 0.9 \<and>
      mesh (scene d) = Some m0 \<and> positionX m0 = 1 \<and> positionY m0 = 2 \<and>
      handle MouseUp d = Some a' \<and> handle TouchEnd d = Some a' \<and>
      \<not> isDragging a' \<and> delayTime (audio a') = 0.2 \<and> reverbMix (audio a') = 0.3 \<and>
      shapeOffsetX a' = 0 \<and> shapeOffsetY a' = 0 \<and>
      mesh (scene a') = Some m \<and> positionX m = 0 \<and> positionY m = 0)"
proof -
  have "audioContextAvailable (window examplePage)"
    by (simp add: examplePage_def newInteractionController_def exampleBrowser_def)
  with release_always_resets [of examplePage 10 20] reachable_examplePage
  have click: "\<exists>a' a'' m. run [Input (MouseDown 10 20), Input MouseUp] examplePage = Some a' \<and>
      \<not> isDragging a' \<and> delayTime (audio a') = 0.2 \<and> reverbMix (audio a') = 0.3 \<and>
      mesh (scene a') = Some m \<and> positionX m = 0 \<and> positionY m = 0 \<and>
      handle Click a' = Some a'' \<and> delayTime (audio a'') = 0.2 \<and> reverbMix (audio a'') = 0.3"
    by (simp del: run.simps handle.simps) blast
  from release_always_resets [of startedPage 10 20] reachable_startedPage
  have idle: "\<exists>a' m. handle MouseUp startedPage = Some a' \<and> handle TouchEnd startedPage = Some a' \<and>
      \<not> isDragging a' \<and> delayTime (audio a') = 0.2 \<and> reverbMix (audio a') = 0.3 \<and>
      shapeOffsetX a' = 0 \<and> shapeOffsetY a' = 0 \<and>
      mesh (scene a') = Some m \<and> positionX m = 0 \<and> positionY m = 0"
    by blast
  have p: "pageInv startedPage" using reachable_startedPage by (rule reachable_inv)
  then obtain m00 where m00: "mesh (scene startedPage) = Some m00"
    by (auto simp: pageInv_def hasMesh_def)
  have dragged: "\<exists>d m0 a' m.
      run [Input (MouseDown 0 0), Input (MouseMove 400 300 exampleRect)] startedPage = Some d \<and>
      reachable d \<and> isDragging d \<and>
      delayTime (audio d) = 0.25 \<and> reverbMix (audio d) = 0.5 \<and>
      shapeOffsetX d = 2 \<and> shapeOffsetY d = - 2 \<and>
      mesh (scene d) = Some m0 \<and> positionX m0 = 2 \<and> positionY m0 = - 2 \<and>
      handle MouseUp d = Some a' \<and> handle TouchEnd d = Some a' \<and>
      \<not> isDragging a' \<and> delayTime (audio a') = 0.2 \<and> reverbMix (audio a') = 0.3 \<and>
      shapeOffsetX a' = 0 \<and> shapeOffsetY a' = 0 \<and>
      mesh (scene a') = Some m \<and> positionX m = 0 \<and> positionY m = 0"
  proof -
    define a0 where "a0 = startedPage\<lparr>isDragging := True, dragStartX := 0, dragStartY := 0\<rparr>"
    have p0: "pageInv a0" using p by (simp add: a0_def pageInv_def)
    have i0: "initialized (audio a0)" using initialized_startedPage by (simp add: a0_def)
    from onMouseMove_spec [OF p0, of 400 300 exampleRect] i0 obtain d
      where d: "onMouseMove 400 300 exampleRect a0 = Some d"
        and fx: "delayTime (audio d) = 0.25" "reverbMix (audio d) = 0.5"
      by (auto simp: a0_def exampleRect_def)
    from onMouseMove_drag [OF d] m00
    have dr: "isDragging d" "shapeOffsetX d = 2" "shapeOffsetY d = - 2"
      "mesh (scene d) = Some (m00\<lparr>positionX := 2, positionY := - 2\<rparr>)"
      by (simp_all add: a0_def exampleRect_def)
    have r: "run [Input (MouseDown 0 0), Input (MouseMove 400 300 exampleRect)] startedPage = Some d"
      using d by (simp add: onMouseDown_def a0_def)
    have "list_all valid [Input (MouseDown 0 0), Input (MouseMove 400 300 exampleRect)]"
      by (simp add: exampleRect_def)
    with reachable_startedPage have rd: "reachable d"
      using r by (rule run_reachable)
    from release_always_resets [OF rd, of 0 0] obtain a' m
      where "handle MouseUp d = Some a'" "handle TouchEnd d = Some a'"
        "\<not> isDragging a'" "delayTime (audio a') = 0.2" "reverbMix (audio a') = 0.3"
        "shapeOffsetX a' = 0" "shapeOffsetY a' = 0"
        "mesh (scene a') = Some m" "positionX m = 0" "positionY m = 0"
      by blast
    with r rd fx dr show ?thesis
      by (intro exI [of _ d] exI [of _ "m00\<lparr>positionX := 2, positionY := - 2\<rparr>"]
          exI [of _ a'] exI [of _ m]) simp
  qed
  have displaced: "\<exists>d m0 a' m.
      run [Call (SetDelayTime 0.45), Call (SetReverbMix 0.9), Call (SetPosition 1 2)] startedPage
        = Some d \<and>
      reachable d \<and> \<not> isDragging d \<and>
      delayTime (audio d) = 0.45 \<and> reverbMix (audio d) = 0.9 \<and>
      mesh (scene d) = Some m0 \<and> positionX m0 = 1 \<and> positionY m0 = 2 \<and>
      handle MouseUp d = Some a' \<and> handle TouchEnd d = Some a' \<and>
      \<not> isDragging a' \<and> delayTime (audio a') = 0.2 \<and> reverbMix (audio a') = 0.3 \<and>
      shapeOffsetX a' = 0 \<and> shapeOffsetY a' = 0 \<and>
      mesh (scene a') = Some m \<and> positionX m = 0 \<and> positionY m = 0"
  proof -
    from p have e: "engineInv (audio startedPage)" by (simp add: pageInv_def)
    from setDelayTime_spec [OF e, of "0.45"] initialized_startedPage obtain s1
      where s1: "setDelayTime 0.45 (audio startedPage) = Some s1" "engineInv s1" "initialized s1"
        "delayTime s1 = 0.45"
      by auto
    from setReverbMix_spec [OF s1(2), of "0.9"] s1(3,4) obtain s2
      where s2: "setReverbMix 0.9 s1 = Some s2" "delayTime s2 = 0.45" "reverbMix s2 = 0.9"
      by auto
    define d where "d = startedPage\<lparr>audio := s2, scene := setPosition 1 2 (scene startedPage)\<rparr>"
    have r: "run [Call (SetDelayTime 0.45), Call (SetReverbMix 0.9), Call (SetPosition 1 2)]
               startedPage = Some d"
      using s1(1) s2(1) by (simp add: onAudio_def d_def)
    have "list_all valid [Call (SetDelayTime 0.45), Call (SetReverbMix 0.9), Call (SetPosition 1 2)]"
      by simp
    with reachable_startedPage have rd: "reachable d"
      using r by (rule run_reachable)
    have dr: "\<not> isDragging d" "delayTime (audio d) = 0.45" "reverbMix (audio d) = 0.9"
      "mesh (scene d) = Some (m00\<lparr>positionX := 1, positionY := 2\<rparr>)"
      using startedPage_not_dragging s2(2,3) m00 by (simp_all add: d_def mesh_setters)
    from release_always_resets [OF rd, of 0 0] obtain a' m
      where "handle MouseUp d = Some a'" "handle TouchEnd d = Some a'"
        "\<not> isDragging a'" "delayTime (audio a') = 0.2" "reverbMix (audio a') = 0.3"
        "shapeOffsetX a' = 0" "shapeOffsetY a' = 0"
        "mesh (scene a') = Some m" "positionX m = 0" "positionY m = 0"
      by blast
    with r rd dr show ?thesis
      by (intro exI [of _ d] exI [of _ "m00\<lparr>positionX := 1, positionY := 2\<rparr>"]
          exI [of _ a'] exI [of _ m]) simp
  qed
  from click idle dragged displaced show ?thesis
    using reachable_examplePage reachable_startedPage by blast
qed

lemma setWaveform_records:
  assumes "setWaveform kind s = Some s'"
  shows "waveform s' = kind"
proof (cases "initialized s")
  case False
  with assms show ?thesis by (auto simp: setWaveform_def)
next
  case True
  have keep: "waveform t' = waveform t" if "onContext f t = Some t'" for f t t'
    using that by (auto simp: onContext_def split: option.splits)
  have keep': "waveform t' = waveform t" if "create mk t = Some (i, t')" for mk t t' i
    using that by (auto simp: create_def split: option.splits prod.splits)
  from assms True show ?thesis
    by (auto simp: setWaveform_def Let_def Option.bind_eq_Some_conv dest!: keep keep')
qed

text \<open>
  C5. \<open>setWaveform\<close> records the kind whenever it returns, and before initialization
  it does nothing else. On an initialized engine of a state the page reaches it returns
  the engine with three fields changed: the waveform, the oscillator, which is a new
  node of the recorded kind, started, at the stored frequency (the frequency the old
  oscillator was heading to) and connected to the gain node, and the context, in which
  the old oscillator is stopped and has lost its connections while every other node and
  connection is as it was.
\<close>

theorem setWaveform_replaces_only_oscillator:
  "(\<forall>s'. setWaveform kind s = Some s' \<longrightarrow> waveform s' = kind) \<and>
   (\<not> initialized s \<longrightarrow> setWaveform kind s = Some (s\<lparr>waveform := kind\<rparr>)) \<and>
   (reachable a \<and> initialized (audio a) \<longrightarrow>
      (\<exists>c c' old new g w p.
         audioContext (audio a) = Some c \<and> oscillator (audio a) = Some old \<and>
         gainNode (audio a) = Some g \<and>
         setWaveform kind (audio a)
           = Some ((audio a)\<lparr>waveform := kind, audioContext := Some c', oscillator := Some new\<rparr>) \<and>
         new = length (nodes c) \<and> length (nodes c') = length (nodes c) + 1 \<and>
         nodes c' ! new = OscillatorNode kind (AudioParam (currentFrequency (audio a)) []) True False \<and>
         nodes c ! old = OscillatorNode w p True False \<and>
         paramTarget p = currentFrequency (audio a) \<and>
         nodes c' ! old = OscillatorNode w p True True \<and>
         (\<forall>i < length (nodes c). i \<noteq> old \<longrightarrow> nodes c' ! i = nodes c ! i) \<and>
         set (connections c') = {e \<in> set (connections c). fst e \<noteq> old} \<union> {(new, g)} \<and>
         currentTime c' = currentTime c \<and> sampleRate c' = sampleRate c))"
proof (intro conjI allI impI)
  fix s' assume "setWaveform kind s = Some s'"
  then show "waveform s' = kind" by (rule setWaveform_records)
next
  assume "\<not> initialized s"
  then show "setWaveform kind s = Some (s\<lparr>waveform := kind\<rparr>)"
    by (simp add: setWaveform_def)
next
  assume ra: "reachable a \<and> initialized (audio a)"
  then have "pageInv a" by (simp add: reachable_inv)
  with ra have gr: "graphReady (audio a)" and i: "initialized (audio a)"
    by (simp_all add: pageInv_def engineInv_def)
  let ?s = "audio a"
  from setWaveform_ready [OF gr i, of kind] obtain c old g
    where c: "audioContext ?s = Some c" and o: "oscillator ?s = Some old"
      and g: "gainNode ?s = Some g"
      and lt: "old < length (nodes c)" "g < length (nodes c)"
      and osc: "isRunningOscillator (currentFrequency ?s) (nodes c ! old)"
      and eq: "setWaveform kind ?s =
             Some (?s\<lparr>waveform := kind,
                     audioContext := Some (swapOscillator kind (currentFrequency ?s) old g c),
                     oscillator := Some (length (nodes c))\<rparr>)"
    by blast
  from osc obtain w p where n: "nodes c ! old = OscillatorNode w p True False"
      and t: "paramTarget p = currentFrequency ?s"
    by (cases "nodes c ! old") auto
  let ?c = "swapOscillator kind (currentFrequency ?s) old g c"
  have nodes': "nodes ?c = (nodes c)[old := OscillatorNode w p True True]
                 @ [OscillatorNode kind (AudioParam (currentFrequency ?s) []) True False]"
    by (simp add: swapOscillator_def n)
  have "length (nodes ?c) = length (nodes c) + 1"
    by (simp add: nodes')
  moreover have "nodes ?c ! length (nodes c)
      = OscillatorNode kind (AudioParam (currentFrequency ?s) []) True False"
    by (simp add: nodes' nth_append)
  moreover have "nodes ?c ! old = OscillatorNode w p True True"
    using lt(1) by (simp add: nodes' nth_append)
  moreover have "\<forall>i < length (nodes c). i \<noteq> old \<longrightarrow> nodes ?c ! i = nodes c ! i"
    by (simp add: nodes' nth_append)
  moreover have "set (connections ?c)
      = {e \<in> set (connections c). fst e \<noteq> old} \<union> {(length (nodes c), g)}"
    by (auto simp: swapOscillator_def)
  moreover have "currentTime ?c = currentTime c" and "sampleRate ?c = sampleRate c"
    by (simp_all add: swapOscillator_def)
  ultimately show "\<exists>c c' old new g w p.
         audioContext (audio a) = Some c \<and> oscillator (audio a) = Some old \<and>
         gainNode (audio a) = Some g \<and>
         setWaveform kind (audio a)
           = Some ((audio a)\<lparr>waveform := kind, audioContext := Some c', oscillator := Some new\<rparr>) \<and>
         new = length (nodes c) \<and> length (nodes c') = length (nodes c) + 1 \<and>
         nodes c' ! new = OscillatorNode kind (AudioParam (currentFrequency (audio a)) []) True False \<and>
         nodes c ! old = OscillatorNode w p True False \<and>
         paramTarget p = currentFrequency (audio a) \<and>
         nodes c' ! old = OscillatorNode w p True True \<and>
         (\<forall>i < length (nodes c). i \<noteq> old \<longrightarrow> nodes c' ! i = nodes c ! i) \<and>
         set (connections c') = {e \<in> set (connections c). fst e \<noteq> old} \<union> {(new, g)} \<and>
         currentTime c' = currentTime c \<and> sampleRate c' = sampleRate c"
    using c o g eq n t by blast
qed

theorem setWaveform_replaces_only_oscillator_witness:
  "\<not> initialized newAudioSynthesizer \<and>
   setWaveform Square newAudioSynthesizer = Some (newAudioSynthesizer\<lparr>waveform := Square\<rparr>) \<and>
   reachable startedPage \<and> initialized (audio startedPage) \<and>
   (\<exists>c c' old new g w p.
      audioContext (audio startedPage) = Some c \<and> oscillator (audio startedPage) = Some old \<and>
      gainNode (audio startedPage) = Some g \<and>
      setWaveform Sawtooth (audio startedPage)
        = Some ((audio startedPage)\<lparr>waveform := Sawtooth, audioContext := Some c',
                                      oscillator := Some new\<rparr>) \<and>
      new = length (nodes c) \<and>
      nodes c' ! new
        = OscillatorNode Sawtooth (AudioParam (currentFrequency (audio startedPage)) []) True False \<and>
      nodes c ! old = OscillatorNode w p True False \<and>
      paramTarget p = currentFrequency (audio startedPage) \<and>
      nodes c' ! old = OscillatorNode w p True True \<and>
      set (connections c') = {e \<in> set (connections c). fst e \<noteq> old} \<union> {(new, g)})"
proof -
  have u: "\<not> initialized newAudioSynthesizer"
    by (simp add: newAudioSynthesizer_def)
  from setWaveform_replaces_only_oscillator [of Square newAudioSynthesizer startedPage] u
  have "setWaveform Square newAudioSynthesizer = Some (newAudioSynthesizer\<lparr>waveform := Square\<rparr>)"
    by blast
  moreover
  from setWaveform_replaces_only_oscillator [of Sawtooth newAudioSynthesizer startedPage]
    reachable_startedPage initialized_startedPage
  have "\<exists>c c' old new g w p.
      audioContext (audio startedPage) = Some c \<and> oscillator (audio startedPage) = Some old \<and>
      gainNode (audio startedPage) = Some g \<and>
      setWaveform Sawtooth (audio startedPage)
        = Some ((audio startedPage)\<lparr>waveform := Sawtooth, audioContext := Some c',
                                      oscillator := Some new\<rparr>) \<and>
      new = length (nodes c) \<and>
      nodes c' ! new
        = OscillatorNode Sawtooth (AudioParam (currentFrequency (audio startedPage)) []) True False \<and>
      nodes c ! old = OscillatorNode w p True False \<and>
      paramTarget p = currentFrequency (audio startedPage) \<and>
      nodes c' ! old = OscillatorNode w p True True \<and>
      set (connections c') = {e \<in> set (connections c). fst e \<noteq> old} \<union> {(new, g)}"
    by blast
  ultimately show ?thesis
    using u reachable_startedPage initialized_startedPage by blast
qed

text \<open>
  C6. A call of \<open>init\<close> that returns leaves an initialized engine on which a second
  call returns at once with the window and the engine as they are: nothing is
  constructed, created or assigned. On an initialized engine the first call already
  does so. On an engine that is not, the first call constructs one context, which holds
  the destination and twelve nodes created once each (one oscillator, one filter, one
  delay, one convolver, one analyser and seven gains), each field naming its own node.
\<close>

theorem init_idempotent:
  assumes "init b s = Some (b1, s1)"
  shows "init b1 s1 = Some (b1, s1) \<and> initialized s1 \<and>
         (initialized s \<longrightarrow> b1 = b \<and> s1 = s) \<and>
         (\<not> initialized s \<longrightarrow>
            contextsCreated b1 = contextsCreated b + 1 \<and>
            (\<exists>c impulse. audioContext s1 = Some c \<and>
               nodes c =
                 [AudioDestinationNode,
                  OscillatorNode (waveform s) (AudioParam (currentFrequency s) []) True False,
                  GainNode (AudioParam 0 []),
                  BiquadFilterNode Lowpass (AudioParam (filterFrequency s) [])
                    (AudioParam (filterQ s) []),
                  DelayNode (AudioParam (delayTime s) []),
                  GainNode (AudioParam 0.4 []),
                  GainNode (AudioParam 0.3 []),
                  ConvolverNode (Some impulse),
                  GainNode (AudioParam (reverbMix s) []),
                  GainNode (AudioParam (1 - reverbMix s) []),
                  AnalyserNode 256,
                  GainNode (AudioParam 0.3 []),
                  GainNode (AudioParam 1 [])] \<and>
               set (connections c) =
                 {(1, 2), (2, 3), (3, 4), (4, 5), (5, 4), (4, 6), (3, 9), (6, 9), (9, 7),
                  (7, 8), (9, 12), (8, 12), (12, 10), (10, 11), (11, 0)} \<and>
               distinct (connections c) \<and>
               oscillator s1 = Some 1 \<and> gainNode s1 = Some 2 \<and> filterNode s1 = Some 3 \<and>
               delayNode s1 = Some 4 \<and> delayFeedback s1 = Some 5 \<and> delayMix s1 = Some 6 \<and>
               reverb s1 = Some 7 \<and> reverbMixNode s1 = Some 8 \<and> dryGain s1 = Some 9 \<and>
               analyser s1 = Some 10 \<and> masterGain s1 = Some 11 \<and>
               analyserData s1 = Some (replicate 128 0) \<and>
               parameters s1 = parameters s \<and> waveform s1 = waveform s \<and>
               isPlaying s1 = isPlaying s))"
proof (cases "initialized s")
  case True
  with assms show ?thesis by (simp add: init_def)
next
  case False
  have av: "audioContextAvailable b \<and> 0 < hardwareSampleRate b"
  proof (rule ccontr)
    assume "\<not> ?thesis"
    from init_unavailable [OF False this] assms show False by simp
  qed
  with init_fresh [OF False, of b] assms
  have b1: "b1 = b\<lparr>contextsCreated := contextsCreated b + 1,
                   randomCalls := randomCalls b + 2 * (hardwareSampleRate b * 2)\<rparr>"
    and s1: "s1 = built b s"
    by simp_all
  have i1: "initialized s1" by (simp add: s1 built_def)
  then have "init b1 s1 = Some (b1, s1)" by (simp add: init_def)
  moreover have "contextsCreated b1 = contextsCreated b + 1" by (simp add: b1)
  moreover have "\<exists>c impulse. audioContext s1 = Some c \<and>
               nodes c =
                 [AudioDestinationNode,
                  OscillatorNode (waveform s) (AudioParam (currentFrequency s) []) True False,
                  GainNode (AudioParam 0 []),
                  BiquadFilterNode Lowpass (AudioParam (filterFrequency s) [])
                    (AudioParam (filterQ s) []),
                  DelayNode (AudioParam (delayTime s) []),
                  GainNode (AudioParam 0.4 []),
                  GainNode (AudioParam 0.3 []),
                  ConvolverNode (Some impulse),
                  GainNode (AudioParam (reverbMix s) []),
                  GainNode (AudioParam (1 - reverbMix s) []),
                  AnalyserNode 256,
                  GainNode (AudioParam 0.3 []),
                  GainNode (AudioParam 1 [])] \<and>
               set (connections c) =
                 {(1, 2), (2, 3), (3, 4), (4, 5), (5, 4), (4, 6), (3, 9), (6, 9), (9, 7),
                  (7, 8), (9, 12), (8, 12), (12, 10), (10, 11), (11, 0)} \<and>
               distinct (connections c) \<and>
               oscillator s1 = Some 1 \<and> gainNode s1 = Some 2 \<and> filterNode s1 = Some 3 \<and>
               delayNode s1 = Some 4 \<and> delayFeedback s1 = Some 5 \<and> delayMix s1 = Some 6 \<and>
               reverb s1 = Some 7 \<and> reverbMixNode s1 = Some 8 \<and> dryGain s1 = Some 9 \<and>
               analyser s1 = Some 10 \<and> masterGain s1 = Some 11 \<and>
               analyserData s1 = Some (replicate 128 0) \<and>
               parameters s1 = parameters s \<and> waveform s1 = waveform s \<and>
               isPlaying s1 = isPlaying s"
    apply (rule exI [of _ "builtGraph b s"])
    apply (rule exI [of _ "impulseResponse b (hardwareSampleRate b)"])
    apply (intro conjI)
    apply (simp_all add: s1 built_def parameters_def)
    apply (simp_all add: builtGraph_def insert_commute)
    done
  ultimately show ?thesis
    using False i1 by blast
qed

theorem init_idempotent_witness:
  "init exampleBrowser newAudioSynthesizer
     = Some (exampleBrowser\<lparr>contextsCreated := 1, randomCalls := 8\<rparr>,
             built exampleBrowser newAudioSynthesizer) \<and>
   init (exampleBrowser\<lparr>contextsCreated := 1, randomCalls := 8\<rparr>)
        (built exampleBrowser newAudioSynthesizer)
     = Some (exampleBrowser\<lparr>contextsCreated := 1, randomCalls := 8\<rparr>,
             built exampleBrowser newAudioSynthesizer) \<and>
   initialized (built exampleBrowser newAudioSynthesizer) \<and>
   \<not> initialized newAudioSynthesizer \<and>
   contextsCreated (exampleBrowser\<lparr>contextsCreated := 1, randomCalls := 8\<rparr>)
     = contextsCreated exampleBrowser + 1 \<and>
   oscillator (built exampleBrowser newAudioSynthesizer) = Some 1"
proof -
  have u: "\<not> initialized newAudioSynthesizer"
    by (simp add: newAudioSynthesizer_def)
  have first: "init exampleBrowser newAudioSynthesizer
     = Some (exampleBrowser\<lparr>contextsCreated := 1, randomCalls := 8\<rparr>,
             built exampleBrowser newAudioSynthesizer)"
    using init_fresh [OF u, of exampleBrowser] by (simp add: exampleBrowser_def)
  from init_idempotent [OF first]
  have "init (exampleBrowser\<lparr>contextsCreated := 1, randomCalls := 8\<rparr>)
             (built exampleBrowser newAudioSynthesizer)
          = Some (exampleBrowser\<lparr>contextsCreated := 1, randomCalls := 8\<rparr>,
                  built exampleBrowser newAudioSynthesizer)"
    and "initialized (built exampleBrowser newAudioSynthesizer)"
    and "\<not> initialized newAudioSynthesizer \<longrightarrow>
           contextsCreated (exampleBrowser\<lparr>contextsCreated := 1, randomCalls := 8\<rparr>)
             = contextsCreated exampleBrowser + 1"
    by blast+
  with first u show ?thesis
    by (simp add: built_def)
qed

lemma clamped:
  fixes lo hi v :: real
  assumes "lo \<le> hi"
  shows "lo \<le> max lo (min hi v) \<and> max lo (min hi v) \<le> hi \<and>
         (v < lo \<longrightarrow> max lo (min hi v) = lo) \<and> (hi < v \<longrightarrow> max lo (min hi v) = hi)"
  using assms by auto

text \<open>
  C7. Before initialization each of \<open>start\<close>, \<open>stop\<close> and the five setters returns
  normally, with the engine exactly as it was. On the initialized engine of a state the
  page reaches, each setter returns normally for every argument and stores the argument
  clamped to the parameter's range: the lower bound for an argument below it, the upper
  bound for one above it.
\<close>

theorem setters_never_throw_and_clamp:
  "(\<not> initialized s \<longrightarrow>
      start s = Some s \<and> stop s = Some s \<and> setFrequency v s = Some s \<and>
      setFilterFrequency v s = Some s \<and> setFilterQ v s = Some s \<and>
      setReverbMix v s = Some s \<and> setDelayTime v s = Some s) \<and>
   (reachable a \<and> initialized (audio a) \<longrightarrow>
      (\<exists>s'. start (audio a) = Some s') \<and> (\<exists>s'. stop (audio a) = Some s') \<and>
      (\<exists>s'. setFrequency v (audio a) = Some s' \<and> currentFrequency s' = max 50 (min 2000 v) \<and>
            50 \<le> currentFrequency s' \<and> currentFrequency s' \<le> 2000 \<and>
            (v < 50 \<longrightarrow> currentFrequency s' = 50) \<and> (2000 < v \<longrightarrow> currentFrequency s' = 2000)) \<and>
      (\<exists>s'. setFilterFrequency v (audio a) = Some s' \<and> filterFrequency s' = max 200 (min 5000 v) \<and>
            200 \<le> filterFrequency s' \<and> filterFrequency s' \<le> 5000 \<and>
            (v < 200 \<longrightarrow> filterFrequency s' = 200) \<and> (5000 < v \<longrightarrow> filterFrequency s' = 5000)) \<and>
      (\<exists>s'. setFilterQ v (audio a) = Some s' \<and> filterQ s' = max 1 (min 20 v) \<and>
            1 \<le> filterQ s' \<and> filterQ s' \<le> 20 \<and>
            (v < 1 \<longrightarrow> filterQ s' = 1) \<and> (20 < v \<longrightarrow> filterQ s' = 20)) \<and>
      (\<exists>s'. setReverbMix v (audio a) = Some s' \<and> reverbMix s' = max 0 (min 1 v) \<and>
            0 \<le> reverbMix s' \<and> reverbMix s' \<le> 1 \<and>
            (v < 0 \<longrightarrow> reverbMix s' = 0) \<and> (1 < v \<longrightarrow> reverbMix s' = 1)) \<and>
      (\<exists>s'. setDelayTime v (audio a) = Some s' \<and> delayTime s' = max 0 (min 0.5 v) \<and>
            0 \<le> delayTime s' \<and> delayTime s' \<le> 0.5 \<and>
            (v < 0 \<longrightarrow> delayTime s' = 0) \<and> (0.5 < v \<longrightarrow> delayTime s' = 0.5)))"
proof (intro conjI impI)
  assume "\<not> initialized s"
  then show "start s = Some s" "stop s = Some s" "setFrequency v s = Some s"
    "setFilterFrequency v s = Some s" "setFilterQ v s = Some s"
    "setReverbMix v s = Some s" "setDelayTime v s = Some s"
    by (simp_all add: start_def stop_def setFrequency_def setFilterFrequency_def
        setFilterQ_def setReverbMix_def setDelayTime_def)
next
  assume ra: "reachable a \<and> initialized (audio a)"
  then have "pageInv a" by (simp add: reachable_inv)
  with ra have e: "engineInv (audio a)" and i: "initialized (audio a)"
    by (simp_all add: pageInv_def)
  from start_spec [OF e] show "\<exists>s'. start (audio a) = Some s'" by blast
  from stop_spec [OF e] show "\<exists>s'. stop (audio a) = Some s'" by blast
  from setFrequency_spec [OF e, of v] i obtain s'
    where "setFrequency v (audio a) = Some s'" and "currentFrequency s' = max 50 (min 2000 v)"
    by auto
  with clamped [of 50 2000 v]
  show "\<exists>s'. setFrequency v (audio a) = Some s' \<and> currentFrequency s' = max 50 (min 2000 v) \<and>
            50 \<le> currentFrequency s' \<and> currentFrequency s' \<le> 2000 \<and>
            (v < 50 \<longrightarrow> currentFrequency s' = 50) \<and> (2000 < v \<longrightarrow> currentFrequency s' = 2000)"
    by simp
  from setFilterFrequency_spec [OF e, of v] i obtain s'
    where "setFilterFrequency v (audio a) = Some s'" and "filterFrequency s' = max 200 (min 5000 v)"
    by auto
  with clamped [of 200 5000 v]
  show "\<exists>s'. setFilterFrequency v (audio a) = Some s' \<and> filterFrequency s' = max 200 (min 5000 v) \<and>
            200 \<le> filterFrequency s' \<and> filterFrequency s' \<le> 5000 \<and>
            (v < 200 \<longrightarrow> filterFrequency s' = 200) \<and> (5000 < v \<longrightarrow> filterFrequency s' = 5000)"
    by simp
  from setFilterQ_spec [OF e, of v] i obtain s'
    where "setFilterQ v (audio a) = Some s'" and "filterQ s' = max 1 (min 20 v)"
    by auto
  with clamped [of 1 20 v]
  show "\<exists>s'. setFilterQ v (audio a) = Some s' \<and> filterQ s' = max 1 (min 20 v) \<and>
            1 \<le> filterQ s' \<and> filterQ s' \<le> 20 \<and>
            (v < 1 \<longrightarrow> filterQ s' = 1) \<and> (20 < v \<longrightarrow> filterQ s' = 20)"
    by simp
  from setReverbMix_spec [OF e, of v] i obtain s'
    where "setReverbMix v (audio a) = Some s'" and "reverbMix s' = max 0 (min 1 v)"
    by auto
  with clamped [of 0 1 v]
  show "\<exists>s'. setReverbMix v (audio a) = Some s' \<and> reverbMix s' = max 0 (min 1 v) \<and>
            0 \<le> reverbMix s' \<and> reverbMix s' \<le> 1 \<and>
            (v < 0 \<longrightarrow> reverbMix s' = 0) \<and> (1 < v \<longrightarrow> reverbMix s' = 1)"
    by simp
  from setDelayTime_spec [OF e, of v] i obtain s'
    where "setDelayTime v (audio a) = Some s'" and "delayTime s' = max 0 (min 0.5 v)"
    by auto
  with clamped [of 0 "0.5" v]
  show "\<exists>s'. setDelayTime v (audio a) = Some s' \<and> delayTime s' = max 0 (min 0.5 v) \<and>
            0 \<le> delayTime s' \<and> delayTime s' \<le> 0.5 \<and>
            (v < 0 \<longrightarrow> delayTime s' = 0) \<and> (0.5 < v \<longrightarrow> delayTime s' = 0.5)"
    by simp
qed

theorem setters_never_throw_and_clamp_witness:
  "\<not> initialized newAudioSynthesizer \<and>
   start newAudioSynthesizer = Some newAudioSynthesizer \<and>
   stop newAudioSynthesizer = Some newAudioSynthesizer \<and>
   setFrequency 9000 newAudioSynthesizer = Some newAudioSynthesizer \<and>
   setFilterFrequency 9000 newAudioSynthesizer = Some newAudioSynthesizer \<and>
   setFilterQ 9000 newAudioSynthesizer = Some newAudioSynthesizer \<and>
   setReverbMix 9000 newAudioSynthesizer = Some newAudioSynthesizer \<and>
   setDelayTime 9000 newAudioSynthesizer = Some newAudioSynthesizer \<and>
   reachable startedPage \<and> initialized (audio startedPage) \<and>
   (\<exists>s'. setFrequency 9000 (audio startedPage) = Some s' \<and> currentFrequency s' = 2000) \<and>
   (\<exists>s'. setFilterFrequency 9000 (audio startedPage) = Some s' \<and> filterFrequency s' = 5000) \<and>
   (\<exists>s'. setFilterQ 9000 (audio startedPage) = Some s' \<and> filterQ s' = 20) \<and>
   (\<exists>s'. setReverbMix 9000 (audio startedPage) = Some s' \<and> reverbMix s' = 1) \<and>
   (\<exists>s'. setDelayTime 9000 (audio startedPage) = Some s' \<and> delayTime s' = 0.5)"
proof -
  have u: "\<not> initialized newAudioSynthesizer"
    by (simp add: newAudioSynthesizer_def)
  from setters_never_throw_and_clamp [of newAudioSynthesizer 9000 startedPage] u
    reachable_startedPage initialized_startedPage
  show ?thesis by simp blast
qed

text \<open>
  C8. \<open>getAudioLevel\<close> returns exactly 0, and changes nothing, when the engine is not
  initialized or has no analyser. On the initialized engine of a state the page
  reaches, whatever spectrum the analyser reports, it reads the spectrum into
  \<open>analyserData\<close>, which keeps its 128 bins, and returns their arithmetic mean
  divided by 255, a value in [0, 1].
\<close>

theorem getAudioLevel_mean_in_unit_interval:
  "(\<not> initialized s \<or> analyser s = None \<longrightarrow> getAudioLevel spectrum s = Some (0, s)) \<and>
   (reachable a \<and> initialized (audio a) \<longrightarrow>
      (\<exists>old bins level.
         analyserData (audio a) = Some old \<and>
         bins = getByteFrequencyData (take 128 spectrum) old \<and> length bins = 128 \<and>
         (length spectrum = 128 \<longrightarrow> bins = spectrum) \<and>
         getAudioLevel spectrum (audio a) = Some (level, (audio a)\<lparr>analyserData := Some bins\<rparr>) \<and>
         level = ((\<Sum>x\<leftarrow>bins. real (unat x)) / real (length bins)) / 255 \<and>
         0 \<le> level \<and> level \<le> 1))"
proof (intro conjI impI)
  assume "\<not> initialized s \<or> analyser s = None"
  then show "getAudioLevel spectrum s = Some (0, s)"
    by (auto simp: getAudioLevel_def)
next
  assume ra: "reachable a \<and> initialized (audio a)"
  then have "pageInv a" by (simp add: reachable_inv)
  with ra have gr: "graphReady (audio a)" and i: "initialized (audio a)"
    by (simp_all add: pageInv_def engineInv_def)
  from getAudioLevel_ready [OF gr i, of spectrum] obtain old
    where old: "analyserData (audio a) = Some old" "length old = 128"
      and eq: "getAudioLevel spectrum (audio a) =
             Some ((foldl (\<lambda>sum x. sum + real (unat x)) 0
                      (getByteFrequencyData (take 128 spectrum) old) / 128) / 255,
                   (audio a)\<lparr>analyserData := Some (getByteFrequencyData (take 128 spectrum) old)\<rparr>)"
    by blast
  define bins where "bins = getByteFrequencyData (take 128 spectrum) old"
  define total where "total = (\<Sum>x\<leftarrow>bins. real (unat x))"
  have len: "length bins = 128"
    using old(2) by (simp add: bins_def getByteFrequencyData_def)
  have same: "length spectrum = 128 \<longrightarrow> bins = spectrum"
    using old(2) by (simp add: bins_def getByteFrequencyData_def)
  have fold: "foldl (\<lambda>sum x. sum + real (unat x)) 0 bins = total"
    unfolding total_def by (simp only: foldl_sum_bytes)
  have "0 \<le> total"
    unfolding total_def
  proof (rule sum_list_nonneg)
    fix y assume "y \<in> set (map (\<lambda>x. real (unat x)) bins)"
    then obtain x :: "8 word" where "y = real (unat x)" by auto
    then show "0 \<le> y" by (simp only: of_nat_0_le_iff)
  qed
  moreover have "total \<le> 255 * 128"
    unfolding total_def using sum_bytes_bound [of bins] len by simp
  ultimately have range: "0 \<le> (total / 128) / 255" "(total / 128) / 255 \<le> 1"
    by simp_all
  have level: "getAudioLevel spectrum (audio a)
          = Some ((total / real (length bins)) / 255, (audio a)\<lparr>analyserData := Some bins\<rparr>)"
    using eq fold len unfolding bins_def [symmetric] by simp
  show "\<exists>old bins level.
         analyserData (audio a) = Some old \<and>
         bins = getByteFrequencyData (take 128 spectrum) old \<and> length bins = 128 \<and>
         (length spectrum = 128 \<longrightarrow> bins = spectrum) \<and>
         getAudioLevel spectrum (audio a) = Some (level, (audio a)\<lparr>analyserData := Some bins\<rparr>) \<and>
         level = ((\<Sum>x\<leftarrow>bins. real (unat x)) / real (length bins)) / 255 \<and>
         0 \<le> level \<and> level \<le> 1"
  proof (intro exI conjI)
    show "analyserData (audio a) = Some old" by (fact old(1))
    show "bins = getByteFrequencyData (take 128 spectrum) old" by (fact bins_def)
    show "length bins = 128" by (fact len)
    show "length spectrum = 128 \<longrightarrow> bins = spectrum" by (fact same)
    show "getAudioLevel spectrum (audio a)
            = Some ((total / real (length bins)) / 255, (audio a)\<lparr>analyserData := Some bins\<rparr>)"
      by (fact level)
    show "(total / real (length bins)) / 255
            = ((\<Sum>x\<leftarrow>bins. real (unat x)) / real (length bins)) / 255"
      by (simp only: total_def)
    show "0 \<le> (total / real (length bins)) / 255" using range(1) len by simp
    show "(total / real (length bins)) / 255 \<le> 1" using range(2) len by simp
  qed
qed

theorem getAudioLevel_mean_in_unit_interval_witness:
  "\<not> initialized newAudioSynthesizer \<and>
   getAudioLevel (replicate 128 255) newAudioSynthesizer = Some (0, newAudioSynthesizer) \<and>
   reachable startedPage \<and> initialized (audio startedPage) \<and>
   (\<exists>s'. getAudioLevel (replicate 128 255) (audio startedPage) = Some (1, s')) \<and>
   (\<exists>s'. getAudioLevel (replicate 64 255 @ replicate 64 0) (audio startedPage) = Some (1 / 2, s'))"
proof -
  have u: "\<not> initialized newAudioSynthesizer"
    by (simp add: newAudioSynthesizer_def)
  have level: "\<exists>s'. getAudioLevel spectrum (audio startedPage)
                 = Some (((\<Sum>x\<leftarrow>spectrum. real (unat x)) / 128) / 255, s')"
    if "length spectrum = 128" for spectrum
  proof -
    from getAudioLevel_mean_in_unit_interval [of newAudioSynthesizer spectrum startedPage]
      reachable_startedPage initialized_startedPage
    obtain old bins level
      where "length spectrum = 128 \<longrightarrow> bins = spectrum"
        and "getAudioLevel spectrum (audio startedPage)
               = Some (level, (audio startedPage)\<lparr>analyserData := Some bins\<rparr>)"
        and "level = ((\<Sum>x\<leftarrow>bins. real (unat x)) / real (length bins)) / 255"
      by blast
    with that show ?thesis by simp
  qed
  have "(\<Sum>x\<leftarrow>replicate 128 (255 :: 8 word). real (unat x)) / 128 / 255 = 1"
    by (simp add: sum_list_replicate)
  with level [of "replicate 128 255"]
  have "\<exists>s'. getAudioLevel (replicate 128 255) (audio startedPage) = Some (1, s')"
    by simp
  moreover
  have "(\<Sum>x\<leftarrow>replicate 64 (255 :: 8 word) @ replicate 64 0. real (unat x)) / 128 / 255 = 1 / 2"
    by (simp add: sum_list_replicate)
  with level [of "replicate 64 255 @ replicate 64 0"]
  have "\<exists>s'. getAudioLevel (replicate 64 255 @ replicate 64 0) (audio startedPage)
               = Some (1 / 2, s')"
    by (simp add: sum_list_replicate)
  moreover
  from getAudioLevel_mean_in_unit_interval [of newAudioSynthesizer "replicate 128 255" startedPage] u
  have "getAudioLevel (replicate 128 255) newAudioSynthesizer = Some (0, newAudioSynthesizer)"
    by blast
  ultimately show ?thesis
    using u reachable_startedPage initialized_startedPage by blast
qed

section \<open>Overlapping activations construct one context\<close>

text \<open>The flag \<open>initialized\<close>, once set, stays set.\<close>

lemma onKeyDown_initialized:
  assumes "pageInv a" and "initialized (audio a)" and "onKeyDown key a = Some a'"
  shows "initialized (audio a')"
proof -
  define a1 where "a1 =
    (if key = ''1'' then a\<lparr>scene := createGeometry ''icosahedron'' (scene a)\<rparr>
     else if key = ''2'' then a\<lparr>scene := createGeometry ''torus'' (scene a)\<rparr>
     else if key = ''3'' then a\<lparr>scene := createGeometry ''octahedron'' (scene a)\<rparr>
     else if key = ''4'' then a\<lparr>scene := createGeometry ''dodecahedron'' (scene a)\<rparr>
     else a)"
  have p1: "pageInv a1" and i1: "initialized (audio a1)"
    using assms(1,2) by (simp_all add: a1_def pageInv_def)
  have k1: "(if key = ''1'' then changeShape ''icosahedron'' a
          else if key = ''2'' then changeShape ''torus'' a
          else if key = ''3'' then changeShape ''octahedron'' a
          else if key = ''4'' then changeShape ''dodecahedron'' a
          else Some a) = Some a1"
    by (simp add: a1_def changeShape_def)
  obtain a2 where a2: "(if key = ''q'' then changeWaveform Sine a1
          else if key = ''w'' then changeWaveform Square a1
          else if key = ''e'' then changeWaveform Sawtooth a1
          else if key = ''r'' then changeWaveform Triangle a1
          else Some a1) = Some a2" and p2: "pageInv a2" and i2: "initialized (audio a2)"
    using changeWaveform_spec [OF p1] p1 i1 by (metis (full_types))
  have "(if key = '' '' then onClick a2 else Some a2) = Some a'"
    using assms(3) k1 a2 by (simp add: onKeyDown_def)
  then show ?thesis
    using i2 onClick_spec [OF p2] by (auto split: if_splits)
qed

lemma handle_initialized:
  assumes "pageInv a" and "initialized (audio a)" and "handle e a = Some a'"
  shows "initialized (audio a')"
proof (cases e)
  case (MouseMove x y r)
  with assms onMouseMove_spec [OF assms(1), of x y r] show ?thesis by auto
next
  case (Wheel d)
  with assms onWheel_spec [OF assms(1), of d] show ?thesis by auto
next
  case Click
  with assms onClick_spec [OF assms(1)] show ?thesis by (auto split: if_splits)
next
  case (MouseDown x y)
  with assms show ?thesis by (auto simp: onMouseDown_def)
next
  case MouseUp
  with assms onMouseUp_spec [OF assms(1)] show ?thesis by auto
next
  case (TouchStart ts)
  with assms show ?thesis
    by (auto simp: onTouchStart_def onMouseDown_def split: list.splits)
next
  case (TouchMove ts r)
  show ?thesis
  proof (cases ts)
    case Nil
    with TouchMove assms show ?thesis by (simp add: onTouchMove_def)
  next
    case (Cons t rest)
    with TouchMove assms onMouseMove_spec [OF assms(1), of "fst t" "snd t" r]
    show ?thesis by (auto simp: onTouchMove_def)
  qed
next
  case TouchEnd
  with assms onMouseUp_spec [OF assms(1)] show ?thesis by (auto simp: onTouchEnd_def)
next
  case (KeyDown k)
  with assms show ?thesis by (auto intro: onKeyDown_initialized)
next
  case (ShapeButton shape)
  with assms show ?thesis by (auto simp: changeShape_def)
next
  case (WaveButton wave)
  with assms changeWaveform_spec [OF assms(1), of wave] show ?thesis by auto
next
  case (Frame spectrum)
  with assms animate_spec [OF assms(1), of spectrum] show ?thesis by auto
qed

lemma perform_initialized:
  assumes "pageInv a" and "initialized (audio a)" and "perform op a = Some a'"
  shows "initialized (audio a')"
proof -
  from assms(1) have e0: "engineInv (audio a)" and r0: "0 < hardwareSampleRate (window a)"
    by (simp_all add: pageInv_def)
  show ?thesis
  proof (cases op)
    case Init
    with assms init_spec [OF e0 r0] show ?thesis by auto
  next
    case Start
    from start_spec [OF e0] obtain s'
      where "start (audio a) = Some s'" and "initialized s' = initialized (audio a)"
      by blast
    with Start assms(2,3) show ?thesis by (auto simp: onAudio_def)
  next
    case Stop
    from stop_spec [OF e0] obtain s'
      where "stop (audio a) = Some s'" and "initialized s' = initialized (audio a)"
      by blast
    with Stop assms(2,3) show ?thesis by (auto simp: onAudio_def)
  next
    case (SetFrequency v)
    from setFrequency_spec [OF e0, of v] obtain s'
      where "setFrequency v (audio a) = Some s'" and "initialized s' = initialized (audio a)"
      by blast
    with SetFrequency assms(2,3) show ?thesis by (auto simp: onAudio_def)
  next
    case (SetFilterFrequency v)
    from setFilterFrequency_spec [OF e0, of v] obtain s'
      where "setFilterFrequency v (audio a) = Some s'" and "initialized s' = initialized (audio a)"
      by blast
    with SetFilterFrequency assms(2,3) show ?thesis by (auto simp: onAudio_def)
  next
    case (SetFilterQ v)
    from setFilterQ_spec [OF e0, of v] obtain s'
      where "setFilterQ v (audio a) = Some s'" and "initialized s' = initialized (audio a)"
      by blast
    with SetFilterQ assms(2,3) show ?thesis by (auto simp: onAudio_def)
  next
    case (SetReverbMix v)
    from setReverbMix_spec [OF e0, of v] obtain s'
      where "setReverbMix v (audio a) = Some s'" and "initialized s' = initialized (audio a)"
      by blast
    with SetReverbMix assms(2,3) show ?thesis by (auto simp: onAudio_def)
  next
    case (SetDelayTime v)
    from setDelayTime_spec [OF e0, of v] obtain s'
      where "setDelayTime v (audio a) = Some s'" and "initialized s' = initialized (audio a)"
      by blast
    with SetDelayTime assms(2,3) show ?thesis by (auto simp: onAudio_def)
  next
    case (SetWaveform w)
    from setWaveform_spec [OF e0, of w] obtain s'
      where "setWaveform w (audio a) = Some s'" and "initialized s' = initialized (audio a)"
      by blast
    with SetWaveform assms(2,3) show ?thesis by (auto simp: onAudio_def)
  next
    case (SetFrequencyNormalized v)
    from setFrequencyNormalized_spec [OF e0, of v] obtain s'
      where "setFrequencyNormalized v (audio a) = Some s'" and "initialized s' = initialized (audio a)"
      by blast
    with SetFrequencyNormalized assms(2,3) show ?thesis by (auto simp: onAudio_def)
  next
    case (GetAudioLevel spectrum)
    from getAudioLevel_spec [OF e0, of spectrum] obtain level s'
      where "getAudioLevel spectrum (audio a) = Some (level, s')"
        and "initialized s' = initialized (audio a)"
      by blast
    with GetAudioLevel assms(2,3) show ?thesis by (auto simp: onAudio_def)
  next
    case (SetAudioLevel v)
    with assms show ?thesis by auto
  next
    case (SetRotation x y)
    with assms show ?thesis by auto
  next
    case (SetScale v)
    with assms show ?thesis by auto
  next
    case (SetPosition x y)
    with assms show ?thesis by auto
  next
    case (CreateGeometry kind)
    with assms show ?thesis by auto
  qed
qed

lemma step_initialized:
  assumes "pageInv a" and "initialized (audio a)" and "step x a = Some a'"
  shows "initialized (audio a')"
  using assms
  by (cases x) (auto intro: handle_initialized perform_initialized simp: elapse_def)

text \<open>
  A configuration is in order when the page's invariant holds; then the window has
  constructed one context if the engine is initialized and none otherwise.
\<close>

lemma advance_inv:
  assumes "pageInv (fst cfg)"
  shows "pageInv (fst (advance i cfg)) \<and>
         (initialized (audio (fst cfg)) \<longrightarrow> initialized (audio (fst (advance i cfg))))"
proof -
  obtain a acts where cfg: "cfg = (a, acts)" by (cases cfg)
  with assms have p: "pageInv a" by simp
  show ?thesis
  proof (cases "i < length acts")
    case False
    with cfg p show ?thesis by (simp add: advance_def)
  next
    case True
    show ?thesis
    proof (cases "acts ! i")
      case NotStarted
      with True cfg p onClickBegin_spec [OF p] show ?thesis
        by (auto simp: advance_def split: if_splits)
    next
      case Awaiting
      with True cfg p onClickResume_spec [OF p] show ?thesis
        by (auto simp: advance_def)
    next
      case Completed
      with True cfg p show ?thesis by (simp add: advance_def)
    next
      case Rejected
      with True cfg p show ?thesis by (simp add: advance_def)
    qed
  qed
qed

lemma interleave_inv:
  assumes "pageInv (fst cfg)"
  shows "pageInv (fst (interleave schedule cfg)) \<and>
         (initialized (audio (fst cfg)) \<longrightarrow> initialized (audio (fst (interleave schedule cfg))))"
  using assms
proof (induction schedule arbitrary: cfg)
  case Nil
  then show ?case by simp
next
  case (Cons t ts)
  show ?case
  proof (cases t)
    case (Activation i)
    from advance_inv [OF Cons.prems, of i] Cons.IH [of "advance i cfg"] Activation
    show ?thesis by simp
  next
    case (Between x)
    define cfg' where "cfg' = (case step x (fst cfg) of None \<Rightarrow> cfg | Some a' \<Rightarrow> (a', snd cfg))"
    have "pageInv (fst cfg') \<and> (initialized (audio (fst cfg)) \<longrightarrow> initialized (audio (fst cfg')))"
      using Cons.prems step_inv [OF Cons.prems, of x] step_initialized [OF Cons.prems, of x]
      by (auto simp: cfg'_def split: option.splits)
    with Cons.IH [of cfg'] Between show ?thesis
      by (simp add: cfg'_def)
  qed
qed

text \<open>
  C9. Start from any state the page reaches, with any number of activations at any
  stage, and let their segments and any other actions run in any order. The window
  never holds more than one constructed audio context: it holds one where the engine
  is initialized and none where it is not; and once the engine is initialized, no
  later segment or action constructs another.
\<close>

theorem activations_construct_one_context:
  assumes "reachable a" and "list_all validTurn schedule"
  shows "contextsCreated (window (fst (interleave schedule (a, acts)))) \<le> 1 \<and>
         contextsCreated (window (fst (interleave schedule (a, acts))))
           = (if initialized (audio (fst (interleave schedule (a, acts)))) then 1 else 0) \<and>
         (initialized (audio a) \<longrightarrow>
            initialized (audio (fst (interleave schedule (a, acts)))) \<and>
            contextsCreated (window (fst (interleave schedule (a, acts))))
              = contextsCreated (window a))"
proof -
  from assms(1) have p: "pageInv (fst (a, acts))" by (simp add: reachable_inv)
  from interleave_inv [OF p, of schedule]
  have p': "pageInv (fst (interleave schedule (a, acts)))"
    and i': "initialized (audio a) \<longrightarrow> initialized (audio (fst (interleave schedule (a, acts))))"
    by simp_all
  from p have "contextsCreated (window a) = (if initialized (audio a) then 1 else 0)"
    by (simp add: pageInv_def)
  with p' i' show ?thesis by (simp add: pageInv_def)
qed

theorem activations_construct_one_context_witness:
  "reachable examplePage \<and>
   list_all validTurn [Activation 0, Activation 1, Between (Input (Wheel 1)), Activation 0] \<and>
   contextsCreated (window examplePage) = 0 \<and>
   contextsCreated (window (fst (interleave
      [Activation 0, Activation 1, Between (Input (Wheel 1)), Activation 0]
      (examplePage, [NotStarted, NotStarted])))) = 1 \<and>
   snd (interleave
      [Activation 0, Activation 1, Between (Input (Wheel 1)), Activation 0]
      (examplePage, [NotStarted, NotStarted])) = [Completed, Completed]"
proof -
  let ?schedule = "[Activation 0, Activation 1, Between (Input (Wheel 1)), Activation 0]"
  let ?final = "interleave ?schedule (examplePage, [NotStarted, NotStarted])"
  have p0: "pageInv examplePage"
    using reachable_examplePage by (rule reachable_inv)
  have "audioContextAvailable (window examplePage)" and c0: "contextsCreated (window examplePage) = 0"
    by (simp_all add: examplePage_def newInteractionController_def exampleBrowser_def)
  with onClickBegin_spec [OF p0] uninitialized_examplePage obtain a1
    where a1: "onClickBegin examplePage = Some (True, a1)" "pageInv a1" "initialized (audio a1)"
    by auto
  from onClickBegin_spec [OF a1(2)] a1(3) obtain a2
    where a2: "onClickBegin a1 = Some (False, a2)" "pageInv a2"
    by auto
  from onWheel_spec [OF a2(2), of 1] obtain a3
    where a3: "onWheel 1 a2 = Some a3" "pageInv a3"
    by blast
  from onClickResume_spec [OF a3(2)] obtain a4
    where a4: "onClickResume a3 = Some a4"
    by blast
  have final: "?final = (a4, [Completed, Completed])"
    using a1(1) a2(1) a3(1) a4 by (simp add: advance_def)
  have rest: "?final = interleave [Activation 1, Between (Input (Wheel 1)), Activation 0]
                         (a1, [Awaiting, NotStarted])"
    using a1(1) by (simp add: advance_def)
  have "initialized (audio (fst ?final))"
    unfolding rest
    using interleave_inv [of "(a1, [Awaiting, NotStarted])"
        "[Activation 1, Between (Input (Wheel 1)), Activation 0]"] a1(2,3)
    by (simp del: interleave.simps)
  with activations_construct_one_context
    [of examplePage ?schedule "[NotStarted, NotStarted]"] reachable_examplePage
  have "contextsCreated (window (fst ?final)) = 1"
    by (simp del: interleave.simps)
  with final c0 reachable_examplePage show ?thesis
    by simp
qed

end
